theory Spec2Isabelle
  imports Complex_Main "HOL-Library.Word" "HOL-Library.Sublist"
begin

section \<open>Signed envelopes: keys, signer and verifier\<close>

text \<open>
  The embedding follows \<^verbatim>\<open>src/security/keys.py\<close>, \<^verbatim>\<open>src/security/signer.py\<close> and
  \<^verbatim>\<open>src/security/verifier.py\<close>.  A secure message is a Python dict; every field read with
  \<^verbatim>\<open>.get\<close> is an option here (\<open>None\<close> for an absent key).  The wall clock
  \<^verbatim>\<open>int(time.time() * 1000)\<close> is the parameter \<open>now\<close>.  HMAC-SHA256 comes from the Python
  standard library, not from this repository: it is the parameter \<open>mac\<close>, mapping a key and a
  message text to the hex digest.
\<close>

subsection \<open>keys.py\<close>

definition DEVICE_KEYS :: "(string \<times> string) list" where
  "DEVICE_KEYS =
    [(''vehicleA-steering-ecu'', ''steering_key_v1_secret_2024''),
     (''vehicleA-speed-ecu'', ''speed_key_v1_secret_2024''),
     (''vehicleA-brake-ecu'', ''brake_key_v1_secret_2024''),
     (''vehicleA-ui-controller'', ''ui_key_v1_secret_2024''),
     (''vehicleA-v2v'', ''v2v_key_v1_secret_2024''),
     (''vehicleB-v2v'', ''v2v_key_v1_secret_2024''),
     (''attacker-unknown'', ''fake_key_attempt_2024'')]"

definition CURRENT_KEY_VERSION :: int where
  "CURRENT_KEY_VERSION = 1"

definition TIMESTAMP_WINDOW_MS :: int where
  "TIMESTAMP_WINDOW_MS = 5000"

definition get_device_key :: "string \<Rightarrow> string option" where
  "get_device_key device_id = map_of DEVICE_KEYS device_id"

definition is_valid_device :: "string \<Rightarrow> bool" where
  "is_valid_device device_id = (device_id \<in> fst ` set DEVICE_KEYS)"

subsection \<open>Text of the signed data\<close>

text \<open>Python's \<^verbatim>\<open>str\<close> of an integer, as used by the f-string that is signed.\<close>

definition digit_char :: "nat \<Rightarrow> char" where
  "digit_char d = char_of (48 + d)"

fun str_nat :: "nat \<Rightarrow> string" where
  "str_nat n = (if n < 10 then [digit_char n] else str_nat (n div 10) @ [digit_char (n mod 10)])"

declare str_nat.simps [simp del]

definition str_int :: "int \<Rightarrow> string" where
  "str_int i = (if i < 0 then CHR ''-'' # str_nat (nat (- i)) else str_nat (nat i))"

text \<open>\<^verbatim>\<open>f"{device_id}:{timestamp}:{sequence}:{can_id}:{payload}"\<close>\<close>

definition message_data :: "string \<Rightarrow> int \<Rightarrow> int \<Rightarrow> int \<Rightarrow> string \<Rightarrow> string" where
  "message_data device_id timestamp sequence can_id payload =
     device_id @ '':'' @ str_int timestamp @ '':'' @ str_int sequence @ '':''
       @ str_int can_id @ '':'' @ payload"

text \<open>\<^verbatim>\<open>bytes.hex()\<close>: two lowercase hexadecimal digits per byte.\<close>

definition hex_digit :: "nat \<Rightarrow> char" where
  "hex_digit d = (if d < 10 then char_of (48 + d) else char_of (87 + d))"

definition hex_bytes :: "8 word list \<Rightarrow> string" where
  "hex_bytes bs = concat (map (\<lambda>b. [hex_digit (unat b div 16), hex_digit (unat b mod 16)]) bs)"

subsection \<open>The envelope\<close>

record secure_msg =
  device_id :: "string option"
  timestamp :: "int option"
  sequence :: "int option"
  key_version :: "int option"
  can_id :: "int option"
  payload :: "string option"
  signature :: "string option"

text \<open>Python truthiness of the values \<^verbatim>\<open>.get\<close> returns: \<^verbatim>\<open>None\<close>, \<^verbatim>\<open>0\<close> and \<^verbatim>\<open>''\<close> are falsy.\<close>

definition truthy_str :: "string option \<Rightarrow> bool" where
  "truthy_str v = (case v of None \<Rightarrow> False | Some s \<Rightarrow> s \<noteq> [])"

definition truthy_int :: "int option \<Rightarrow> bool" where
  "truthy_int v = (case v of None \<Rightarrow> False | Some i \<Rightarrow> i \<noteq> 0)"

subsection \<open>signer.py\<close>

record signer =
  signer_device_id :: string
  signer_key :: string
  signer_sequence :: int

datatype signer_error = NoKeyFound string

text \<open>
  \<^verbatim>\<open>MessageSigner.__init__\<close>: \<open>stored\<close> is the content of the sequence file when it exists and
  parses (\<^verbatim>\<open>_load_sequence\<close>), otherwise the counter starts at 1.
\<close>

definition MessageSigner_init :: "string \<Rightarrow> int option \<Rightarrow> signer_error + signer" where
  "MessageSigner_init dev stored =
     (case get_device_key dev of
        None \<Rightarrow> Inl (NoKeyFound dev)
      | Some k \<Rightarrow>
          if k = [] then Inl (NoKeyFound dev)
          else Inr \<lparr>signer_device_id = dev, signer_key = k,
                    signer_sequence = (case stored of None \<Rightarrow> 1 | Some n \<Rightarrow> n)\<rparr>)"

text \<open>\<^verbatim>\<open>MessageSigner.sign_message\<close> for a \<^verbatim>\<open>bytes\<close> payload; returns the envelope and the signer
  with its counter incremented.\<close>

definition sign_message ::
  "(string \<Rightarrow> string \<Rightarrow> string) \<Rightarrow> int \<Rightarrow> signer \<Rightarrow> int \<Rightarrow> 8 word list \<Rightarrow> secure_msg \<times> signer" where
  "sign_message mac now s cid data =
     (let s' = s\<lparr>signer_sequence := signer_sequence s + 1\<rparr>;
          ts = now;
          hex = hex_bytes data;
          text = message_data (signer_device_id s') ts (signer_sequence s') cid hex
      in (\<lparr>device_id = Some (signer_device_id s'), timestamp = Some ts,
            sequence = Some (signer_sequence s'), key_version = Some CURRENT_KEY_VERSION,
            can_id = Some cid, payload = Some hex,
            signature = Some (mac (signer_key s') text)\<rparr>, s'))"

subsection \<open>verifier.py\<close>

text \<open>
  The two \<^verbatim>\<open>defaultdict\<close>s are total functions: an unseen device reads as \<^verbatim>\<open>0\<close> and \<^verbatim>\<open>[]\<close>.
\<close>

record verifier =
  last_sequences :: "string \<Rightarrow> int"
  message_history :: "string \<Rightarrow> int list"

definition MessageVerifier_init :: verifier where
  "MessageVerifier_init = \<lparr>last_sequences = (\<lambda>_. 0), message_history = (\<lambda>_. [])\<rparr>"

text \<open>The second component of the returned pair, with the values the f-strings interpolate.\<close>

datatype reason =
    Valid_message
  | Missing_required_fields
  | Unknown_device string
  | Message_too_old int
  | Sequence_replay int int
  | Invalid_HMAC_signature
  | Verification_error

text \<open>
  \<^verbatim>\<open>hmac.compare_digest\<close> on two \<^verbatim>\<open>str\<close> raises \<^verbatim>\<open>TypeError\<close> unless both are ASCII; the
  \<^verbatim>\<open>except\<close> clause of \<^verbatim>\<open>verify_message\<close> turns that into a rejection.
\<close>

definition is_ascii :: "string \<Rightarrow> bool" where
  "is_ascii s = list_all (\<lambda>c. (of_char c :: nat) < 128) s"

definition verify_message ::
  "(string \<Rightarrow> string \<Rightarrow> string) \<Rightarrow> int \<Rightarrow> verifier \<Rightarrow> secure_msg \<Rightarrow> (bool \<times> reason) \<times> verifier" where
  "verify_message mac now v m =
     (if \<not> (truthy_str (device_id m) \<and> truthy_int (timestamp m) \<and> truthy_int (sequence m)
             \<and> truthy_int (can_id m) \<and> truthy_str (payload m) \<and> truthy_str (signature m))
      then ((False, Missing_required_fields), v)
      else
        let dev = the (device_id m); ts = the (timestamp m); seq = the (sequence m);
            cid = the (can_id m); pl = the (payload m); sig = the (signature m)
        in case get_device_key dev of
             None \<Rightarrow> ((False, Unknown_device dev), v)
           | Some key \<Rightarrow>
               if key = [] then ((False, Unknown_device dev), v)
               else if \<bar>now - ts\<bar> > TIMESTAMP_WINDOW_MS
               then ((False, Message_too_old (now - ts)), v)
               else
                 let last_seq = last_sequences v dev in
                 if seq \<le> last_seq \<and> \<not> seq < last_seq - 100
                 then ((False, Sequence_replay seq last_seq), v)
                 else
                   let v1 = (if seq \<le> last_seq
                             then v\<lparr>last_sequences := (last_sequences v)(dev := seq)\<rparr> else v);
                       expected_signature = mac key (message_data dev ts seq cid pl)
                   in if \<not> (is_ascii sig \<and> is_ascii expected_signature)
                      then ((False, Verification_error), v1)
                      else if sig \<noteq> expected_signature
                      then ((False, Invalid_HMAC_signature), v1)
                      else
                        let cutoff = now - TIMESTAMP_WINDOW_MS;
                            v2 = v1\<lparr>last_sequences := (last_sequences v1)(dev := seq),
                                    message_history := (message_history v1)
                                      (dev := filter (\<lambda>t. t > cutoff) (message_history v1 dev @ [ts]))\<rparr>
                        in ((True, Valid_message), v2))"

text \<open>
  A stand-in digest (key followed by text, for ASCII arguments an ASCII string), used only
  where a closed example has to supply the \<open>mac\<close> parameter.
\<close>

definition sample_mac :: "string \<Rightarrow> string \<Rightarrow> string" where
  "sample_mac key text = key @ text"

text \<open>The envelope reaches the sequence check of \<^verbatim>\<open>verify_message\<close>: every field is truthy,
  the device has a key, and the timestamp is inside the window.\<close>

definition reaches_sequence_check :: "int \<Rightarrow> secure_msg \<Rightarrow> bool" where
  "reaches_sequence_check now m =
     (truthy_str (device_id m) \<and> truthy_int (timestamp m) \<and> truthy_int (sequence m)
      \<and> truthy_int (can_id m) \<and> truthy_str (payload m) \<and> truthy_str (signature m)
      \<and> (case get_device_key (the (device_id m)) of None \<Rightarrow> False | Some key \<Rightarrow> key \<noteq> [])
      \<and> \<bar>now - the (timestamp m)\<bar> \<le> TIMESTAMP_WINDOW_MS)"

text \<open>The digest \<^verbatim>\<open>verify_message\<close> recomputes for an envelope.\<close>

definition expected_signature_of :: "(string \<Rightarrow> string \<Rightarrow> string) \<Rightarrow> secure_msg \<Rightarrow> string" where
  "expected_signature_of mac m =
     mac (the (get_device_key (the (device_id m))))
       (message_data (the (device_id m)) (the (timestamp m)) (the (sequence m))
          (the (can_id m)) (the (payload m)))"

section \<open>Trust engine\<close>

text \<open>
  \<^verbatim>\<open>src/trust_engine.py\<close>.  Python floats are read as real numbers in this section and in the
  sections on the IPS engine, the physics validator and the listener (the codec section models
  their rounding);
  \<^verbatim>\<open>time.time()\<close> is the parameter \<open>now\<close>.  The storage call at the end of
  \<^verbatim>\<open>update_trust\<close> only logs and swallows its own errors.  The attribute
  \<^verbatim>\<open>_ips_active\<close> does not exist until \<^verbatim>\<open>set_ips_active\<close> is called.
\<close>

record TrustEngine =
  alpha :: real
  beta :: real
  gamma :: real
  trust_score :: real
  last_update :: real
  min_trust :: real
  max_trust :: real
  recovery_rate :: real
  ml_enabled :: bool
  ips_active :: "bool option"

definition TrustEngine_init :: "real \<Rightarrow> real \<Rightarrow> real \<Rightarrow> real \<Rightarrow> TrustEngine" where
  "TrustEngine_init a b g now =
     \<lparr>alpha = a, beta = b, gamma = g, trust_score = 1, last_update = now,
      min_trust = 0, max_trust = 1, recovery_rate = 1 / 100, ml_enabled = True,
      ips_active = None\<rparr>"

text \<open>The constructor's default arguments, as the listener uses it.\<close>

definition TrustEngine_default :: "real \<Rightarrow> TrustEngine" where
  "TrustEngine_default now = TrustEngine_init (1 / 10) (2 / 10) (5 / 100) now"

definition effective_anomaly_score :: "TrustEngine \<Rightarrow> real \<Rightarrow> real" where
  "effective_anomaly_score e anomaly_score = (if ml_enabled e then anomaly_score else 0)"

definition update_trust :: "real \<Rightarrow> TrustEngine \<Rightarrow> real \<Rightarrow> real \<Rightarrow> real \<Rightarrow> real \<times> TrustEngine" where
  "update_trust now e anomaly_score auth_result temporal_score =
     (let eff = effective_anomaly_score e anomaly_score;
          trust_delta = - alpha e * eff - beta e * (1 - auth_result)
                        - gamma e * (1 - temporal_score);
          trust_delta = (if eff < 1 / 10 then trust_delta + recovery_rate e else trust_delta);
          t = trust_score e + trust_delta;
          t = max (min_trust e) (min (max_trust e) t);
          e' = e\<lparr>trust_score := t, last_update := now\<rparr>
      in (t, e'))"

definition reset_trust :: "real \<Rightarrow> TrustEngine \<Rightarrow> TrustEngine" where
  "reset_trust now e = e\<lparr>trust_score := max_trust e, last_update := now\<rparr>"

definition set_ml_enabled :: "TrustEngine \<Rightarrow> bool \<Rightarrow> TrustEngine" where
  "set_ml_enabled e b = e\<lparr>ml_enabled := b\<rparr>"

definition set_ips_active :: "TrustEngine \<Rightarrow> bool \<Rightarrow> TrustEngine" where
  "set_ips_active e b = e\<lparr>ips_active := Some b\<rparr>"

definition get_trust_level :: "TrustEngine \<Rightarrow> string" where
  "get_trust_level e =
     (if trust_score e > 8 / 10 then ''HIGH''
      else if trust_score e > 6 / 10 then ''MEDIUM''
      else if trust_score e > 4 / 10 then ''LOW''
      else ''CRITICAL'')"

definition get_security_mode :: "TrustEngine \<Rightarrow> string" where
  "get_security_mode e = (if ml_enabled e then ''CRYPTO_PLUS_ML'' else ''CRYPTO_ONLY'')"

text \<open>Every state-changing method of the engine, and the engine after a sequence of calls.\<close>

datatype trust_call =
    Update_trust real real real real
  | Reset_trust real
  | Set_ml_enabled bool
  | Set_ips_active bool

fun trust_call_step :: "TrustEngine \<Rightarrow> trust_call \<Rightarrow> TrustEngine" where
  "trust_call_step e (Update_trust now a auth t) = snd (update_trust now e a auth t)"
| "trust_call_step e (Reset_trust now) = reset_trust now e"
| "trust_call_step e (Set_ml_enabled b) = set_ml_enabled e b"
| "trust_call_step e (Set_ips_active b) = set_ips_active e b"

definition trust_engine_after :: "TrustEngine \<Rightarrow> trust_call list \<Rightarrow> TrustEngine" where
  "trust_engine_after e calls = foldl trust_call_step e calls"

text \<open>\<open>clamp x lo hi\<close> as the specification writes it.\<close>

definition clamp :: "real \<Rightarrow> real \<Rightarrow> real \<Rightarrow> real" where
  "clamp x lo hi = max lo (min hi x)"

section \<open>IPS policy engine\<close>

text \<open>
  \<^verbatim>\<open>src/ips_engine.py\<close>.  The mode string takes the four values the engine assigns.  The
  parameters \<^verbatim>\<open>anomaly_score\<close> and \<^verbatim>\<open>attack_active\<close> of \<^verbatim>\<open>update_policy\<close> are never read and
  are left out; a policy dict is a record whose absent or \<^verbatim>\<open>None\<close> entries are \<open>None\<close>.
\<close>

datatype ips_mode = OFF | SOFT_LIMIT | SAFE_MODE | CRITICAL

record IPSState =
  enabled :: bool
  mode :: ips_mode
  last_safe_speed :: real
  last_safe_steering :: real
  recovery_timer :: real
  sustained_anomaly_start :: "real option"

definition IPSState_init :: IPSState where
  "IPSState_init =
     \<lparr>enabled = True, mode = OFF, last_safe_speed = 30, last_safe_steering = 0,
      recovery_timer = 0, sustained_anomaly_start = None\<rparr>"

record policy =
  policy_mode :: ips_mode
  action :: string
  speed_limit :: "real option"
  steering_limit :: "real option"
  max_accel :: "real option"

definition MAX_ACCEL :: real where
  "MAX_ACCEL = 5"

definition set_enabled :: "IPSState \<Rightarrow> bool \<Rightarrow> IPSState" where
  "set_enabled s b =
     (if \<not> b
      then s\<lparr>enabled := b, mode := OFF, recovery_timer := 0, sustained_anomaly_start := None\<rparr>
      else s\<lparr>enabled := b\<rparr>)"

definition get_policy_limits :: "IPSState \<Rightarrow> policy" where
  "get_policy_limits s =
     (case mode s of
        OFF \<Rightarrow> \<lparr>policy_mode = OFF, action = ''ALLOW'', speed_limit = None,
                  steering_limit = None, max_accel = None\<rparr>
      | SOFT_LIMIT \<Rightarrow> \<lparr>policy_mode = SOFT_LIMIT, action = ''CLAMP'', speed_limit = Some 40,
                  steering_limit = Some 15, max_accel = Some MAX_ACCEL\<rparr>
      | SAFE_MODE \<Rightarrow> \<lparr>policy_mode = SAFE_MODE, action = ''RESTRICT'', speed_limit = Some 35,
                  steering_limit = Some 10, max_accel = Some 2\<rparr>
      | CRITICAL \<Rightarrow> \<lparr>policy_mode = CRITICAL, action = ''MINIMAL'', speed_limit = Some 25,
                  steering_limit = Some 5, max_accel = Some 1\<rparr>)"

definition update_policy :: "real \<Rightarrow> IPSState \<Rightarrow> real \<Rightarrow> policy \<times> IPSState" where
  "update_policy current_time s trust =
     (if \<not> enabled s
      then (\<lparr>policy_mode = OFF, action = ''ALLOW'', speed_limit = None,
              steering_limit = None, max_accel = None\<rparr>, s)
      else
        let s' =
          (if trust < 8 / 10
           then s\<lparr>mode := (if trust \<ge> 7 / 10 then SOFT_LIMIT
                             else if trust \<ge> 5 / 10 then SAFE_MODE else CRITICAL),
                   recovery_timer := 0\<rparr>
           else if mode s \<noteq> OFF
           then (if recovery_timer s = 0 then s\<lparr>recovery_timer := current_time\<rparr>
                 else if current_time - recovery_timer s > 5
                 then s\<lparr>mode := OFF, recovery_timer := 0\<rparr>
                 else s)
           else s)
        in (get_policy_limits s', s'))"

definition sanitize_speed :: "IPSState \<Rightarrow> real \<Rightarrow> real \<Rightarrow> real \<times> IPSState" where
  "sanitize_speed s requested_speed current_speed =
     (let pol = get_policy_limits s in
      if policy_mode pol = OFF
      then (requested_speed, s\<lparr>last_safe_speed := requested_speed\<rparr>)
      else
        let safe_speed = min (the (speed_limit pol)) (current_speed + 2);
            safe_speed = max safe_speed 10
        in (safe_speed, s))"

definition sanitize_steering :: "IPSState \<Rightarrow> real \<Rightarrow> real \<times> IPSState" where
  "sanitize_steering s requested_steering =
     (let pol = get_policy_limits s in
      if policy_mode pol = OFF
      then (requested_steering, s\<lparr>last_safe_steering := requested_steering\<rparr>)
      else
        let safe_steering = last_safe_steering s * (9 / 10);
            safe_steering = max (- the (steering_limit pol))
                              (min (the (steering_limit pol)) safe_steering)
        in (safe_steering, s))"

text \<open>The calls that change the mode or the timer, and the engine after a sequence of them,
  starting from the constructor's state.\<close>

datatype ips_call = Update_policy real real | Set_enabled bool

fun ips_call_step :: "IPSState \<Rightarrow> ips_call \<Rightarrow> IPSState" where
  "ips_call_step s (Update_policy current_time trust) = snd (update_policy current_time s trust)"
| "ips_call_step s (Set_enabled b) = set_enabled s b"

definition ips_after :: "ips_call list \<Rightarrow> IPSState" where
  "ips_after calls = foldl ips_call_step IPSState_init calls"

text \<open>A call that keeps a recovery running: an update with trust at least 0.8, or a
  re-enabling of the already enabled engine.\<close>

fun keeps_recovery :: "ips_call \<Rightarrow> bool" where
  "keeps_recovery (Update_policy current_time trust) = (trust \<ge> 8 / 10)"
| "keeps_recovery (Set_enabled b) = b"

text \<open>A recovery started at time \<open>t0\<close>: some update at \<open>t0\<close> saw trust at least 0.8,
  and every call since has kept the recovery running.\<close>

definition recovery_started :: "ips_call list \<Rightarrow> real \<Rightarrow> bool" where
  "recovery_started calls t0 =
     (\<exists>pre post trust0. calls = pre @ Update_policy t0 trust0 # post
        \<and> trust0 \<ge> 8 / 10 \<and> list_all keeps_recovery post)"

section \<open>Physics validator\<close>

text \<open>
  \<^verbatim>\<open>src/physics_validator.py\<close>.  The three histories are deques of at most ten entries.  A
  reason string is kept as the list of its violation tags, without the formatted numbers.
\<close>

record PhysicsValidator =
  speed_history :: "real list"
  steering_history :: "real list"
  timestamp_history :: "real list"
  last_speed :: real
  last_steering :: real
  last_timestamp :: real

definition PhysicsValidator_init :: "real \<Rightarrow> PhysicsValidator" where
  "PhysicsValidator_init now =
     \<lparr>speed_history = [], steering_history = [], timestamp_history = [],
      last_speed = 0, last_steering = 0, last_timestamp = now\<rparr>"

definition MAX_ACCELERATION :: real where "MAX_ACCELERATION = 4"
definition MAX_DECELERATION :: real where "MAX_DECELERATION = 9"
definition MAX_SPEED_DELTA_PER_CYCLE :: real where "MAX_SPEED_DELTA_PER_CYCLE = 5"
definition MAX_STEERING_RATE :: real where "MAX_STEERING_RATE = 30"

text \<open>\<^verbatim>\<open>deque(maxlen=10).append\<close>: a full deque drops its oldest entry.\<close>

definition deque_append :: "'a list \<Rightarrow> 'a \<Rightarrow> 'a list" where
  "deque_append xs x = (if length xs \<ge> 10 then tl xs @ [x] else xs @ [x])"

definition update_history :: "PhysicsValidator \<Rightarrow> real \<Rightarrow> real \<Rightarrow> real \<Rightarrow> PhysicsValidator" where
  "update_history pv speed steering ts =
     pv\<lparr>speed_history := deque_append (speed_history pv) speed,
        steering_history := deque_append (steering_history pv) steering,
        timestamp_history := deque_append (timestamp_history pv) ts,
        last_speed := speed, last_steering := steering, last_timestamp := ts\<rparr>"

datatype check_reason = Initial | No_time_delta | No_violation | Violations "string list"

definition reason_of :: "string list \<Rightarrow> check_reason" where
  "reason_of violations = (if violations \<noteq> [] then Violations violations else No_violation)"

definition validate_speed_physics ::
  "PhysicsValidator \<Rightarrow> real \<Rightarrow> real \<Rightarrow> (bool \<times> check_reason \<times> real) \<times> PhysicsValidator" where
  "validate_speed_physics pv speed ts =
     (if speed_history pv = [] then ((True, Initial, 1), update_history pv speed 0 ts)
      else
        let dt = ts - last_timestamp pv in
        if dt \<le> 0 then ((True, No_time_delta, 1), pv)
        else
          let speed_delta = speed - last_speed pv;
              acceleration = (speed_delta / (36 / 10)) / dt;
              (violation_score, violations) = (0, []);
              (violation_score, violations) =
                (if acceleration > MAX_ACCELERATION
                 then (min 1 (acceleration / MAX_ACCELERATION - 1), violations @ [''accel''])
                 else (violation_score, violations));
              (violation_score, violations) =
                (if acceleration < - MAX_DECELERATION
                 then (min 1 (\<bar>acceleration\<bar> / MAX_DECELERATION - 1), violations @ [''decel''])
                 else (violation_score, violations));
              (violation_score, violations) =
                (if \<bar>speed_delta\<bar> > MAX_SPEED_DELTA_PER_CYCLE \<and> dt < 2 / 10
                 then (max violation_score (8 / 10), violations @ [''delta''])
                 else (violation_score, violations));
              pv' = update_history pv speed 0 ts;
              is_valid = violation_score < 5 / 10
          in ((is_valid, reason_of violations, 1 - violation_score), pv'))"

definition validate_steering_physics ::
  "PhysicsValidator \<Rightarrow> real \<Rightarrow> real \<Rightarrow> (bool \<times> check_reason \<times> real) \<times> PhysicsValidator" where
  "validate_steering_physics pv steering ts =
     (if steering_history pv = [] then ((True, Initial, 1), update_history pv 0 steering ts)
      else
        let dt = ts - last_timestamp pv in
        if dt \<le> 0 then ((True, No_time_delta, 1), pv)
        else
          let steering_delta = \<bar>steering - last_steering pv\<bar>;
              steering_rate = steering_delta / dt;
              (violation_score, violations) =
                (if steering_rate > MAX_STEERING_RATE
                 then (min 1 (steering_rate / MAX_STEERING_RATE - 1), [''rate''])
                 else (0, []));
              is_valid = violation_score < 5 / 10
          in ((is_valid, reason_of violations, 1 - violation_score), pv))"

definition validate_correlation ::
  "PhysicsValidator \<Rightarrow> real \<Rightarrow> real \<Rightarrow> real \<Rightarrow> bool \<times> check_reason \<times> real" where
  "validate_correlation pv speed steering brake =
     (let (violation_score, violations) = (0, []);
          (violation_score, violations) =
            (if length (speed_history pv) \<ge> 2 \<and> speed > last_speed pv + 1 \<and> brake > 10
             then (max violation_score (7 / 10), violations @ [''speed_up_while_braking''])
             else (violation_score, violations));
          (violation_score, violations) =
            (if speed > 80 \<and> \<bar>steering\<bar> < 1
                \<and> length (filter (\<lambda>s. \<bar>s\<bar> < 1) (steering_history pv)) > 8
             then (max violation_score (3 / 10), violations @ [''high_speed_no_steering''])
             else (violation_score, violations));
          (violation_score, violations) =
            (if speed > 60 \<and> \<bar>steering\<bar> > 25
             then (max violation_score (6 / 10), violations @ [''extreme_steering_high_speed''])
             else (violation_score, violations));
          is_valid = violation_score < 5 / 10
      in (is_valid, reason_of violations, 1 - violation_score))"

record physics_result =
  physics_score :: real
  speed_valid :: bool
  steering_valid :: bool
  correlation_valid :: bool
  violation_speed :: "check_reason option"
  violation_steering :: "check_reason option"
  violation_correlation :: "check_reason option"
  overall_valid :: bool

definition get_physics_score ::
  "PhysicsValidator \<Rightarrow> real \<Rightarrow> real \<Rightarrow> real \<Rightarrow> real \<Rightarrow> physics_result \<times> PhysicsValidator" where
  "get_physics_score pv speed steering brake ts =
     (let ((speed_ok, speed_reason, speed_score), pv1) = validate_speed_physics pv speed ts;
          ((steering_ok, steering_reason, steering_score), pv2) =
             validate_steering_physics pv1 steering ts;
          (corr_ok, corr_reason, corr_score) = validate_correlation pv2 speed steering brake;
          combined_score = 5 / 10 * speed_score + 3 / 10 * steering_score + 2 / 10 * corr_score
      in (\<lparr>physics_score = combined_score, speed_valid = speed_ok,
            steering_valid = steering_ok, correlation_valid = corr_ok,
            violation_speed = (if \<not> speed_ok then Some speed_reason else None),
            violation_steering = (if \<not> steering_ok then Some steering_reason else None),
            violation_correlation = (if \<not> corr_ok then Some corr_reason else None),
            overall_valid = (speed_ok \<and> steering_ok \<and> corr_ok)\<rparr>, pv2))"

section \<open>Listener: fusion of the layer scores\<close>

text \<open>
  The detection phase of \<^verbatim>\<open>CANListener._process_message\<close> in \<^verbatim>\<open>src/can_listener.py\<close>, from
  \<^verbatim>\<open>total_anomaly_score = 0.0\<close> to the physics override.  The modules that produce the ML score,
  the behavioural features and the temporal result are not part of the sources at hand, and the
  contextual score enters the fusion as a number: all four are inputs here.
  \<^verbatim>\<open>behavioral_features\<close> is a dict or \<^verbatim>\<open>None\<close>; \<^verbatim>\<open>training_mode\<close> is the listener's flag as it
  stands after the training block of the same frame.
\<close>

text \<open>Python's \<^verbatim>\<open>needle in hay\<close> on strings.\<close>

fun str_contains :: "string \<Rightarrow> string \<Rightarrow> bool" where
  "str_contains [] needle = (needle = [])"
| "str_contains (c # cs) needle = (prefix needle (c # cs) \<or> str_contains cs needle)"

definition dict_get :: "(string \<times> real) list \<Rightarrow> string \<Rightarrow> real \<Rightarrow> real" where
  "dict_get d k dflt = (case map_of d k of None \<Rightarrow> dflt | Some x \<Rightarrow> x)"

definition control_anomaly_score :: "(string \<times> real) list option \<Rightarrow> real" where
  "control_anomaly_score behavioral_features =
     (case behavioral_features of
        None \<Rightarrow> 0
      | Some d \<Rightarrow>
          if d = [] then 0
          else
            let steering_energy = dict_get d ''steering_energy'' 0;
                steering_jerk = dict_get d ''steering_jerk'' 0;
                oscillation_rate = dict_get d ''oscillation_rate'' 0;
                control_aggression = dict_get d ''control_aggression'' 0;
                c = 0;
                c = (if steering_energy > 5 then c + 4 / 10 else c);
                c = (if steering_jerk > 3 then c + 3 / 10 else c);
                c = (if oscillation_rate > 1 then c + 5 / 10 else c);
                c = (if control_aggression > 5 then c + 3 / 10 else c)
            in min 1 c)"

definition total_anomaly_score ::
  "string \<Rightarrow> bool \<Rightarrow> real \<Rightarrow> (string \<times> real) list option \<Rightarrow> real \<Rightarrow> physics_result \<Rightarrow> real \<Rightarrow> real" where
  "total_anomaly_score dev training_mode ml_anomaly_score behavioral_features context_score
       physics_res temporal_anomaly_score =
     (if dev \<noteq> [] \<and> str_contains dev ''ui-controller'' then 0
      else if \<not> training_mode then
        let control = control_anomaly_score behavioral_features;
            physics_anomaly_score = context_score;
            ml_score = 4 / 10 * ml_anomaly_score + 4 / 10 * control
                       + 2 / 10 * physics_anomaly_score;
            temporal_score = 1 - temporal_anomaly_score;
            total = 1 - (6 / 10 * (1 - ml_score) + 25 / 100 * physics_score physics_res
                         + 15 / 100 * temporal_score)
        in if \<not> overall_valid physics_res then max total (8 / 10) else total
      else 0)"

section \<open>Signal codec\<close>

text \<open>
  The encoders are the payload computations of \<^verbatim>\<open>_send_steering\<close>, \<^verbatim>\<open>_send_speed\<close> and
  \<^verbatim>\<open>_send_brake\<close> in \<^verbatim>\<open>src/can_generator.py\<close>; the decoder is the signal extraction of
  \<^verbatim>\<open>CANListener._process_message\<close>.  Here the result of a float operation is truncated by
  \<^verbatim>\<open>int(...)\<close>, so its rounding decides which integer is sent: the float operations of the codec
  are IEEE binary64 operations, each the exact real result rounded to the nearest double, ties to
  even.
\<close>

subsection \<open>Binary64 rounding\<close>

text \<open>
  \<open>binade y\<close> is the exponent \<open>e\<close> with \<open>2 ^ e \<le> |y| < 2 ^ (e + 1)\<close>, found by halving or
  doubling (at most 1100 times, more than any finite double needs) and not below the exponent
  -1022 of the subnormal numbers; the doubles of that binade are the multiples of
  \<open>double_ulp y\<close>.  \<open>double_round y\<close> is the double nearest to \<open>y\<close>, and \<open>float_result y\<close>
  is what a float operation with exact result \<open>y\<close> returns: \<open>None\<close> stands for an infinity,
  which \<^verbatim>\<open>int(...)\<close> refuses with \<^verbatim>\<open>OverflowError\<close>.
\<close>

definition round_half_even :: "real \<Rightarrow> int" where
  "round_half_even t =
     (let f = \<lfloor>t\<rfloor>; d = t - real_of_int f
      in if d < 1 / 2 then f else if d > 1 / 2 then f + 1 else if even f then f else f + 1)"

fun binade_search :: "nat \<Rightarrow> real \<Rightarrow> int \<Rightarrow> int" where
  "binade_search 0 y e = e"
| "binade_search (Suc n) y e =
     (if y \<ge> 2 then binade_search n (y / 2) (e + 1)
      else if y < 1 then binade_search n (y * 2) (e - 1)
      else e)"

definition binade :: "real \<Rightarrow> int" where
  "binade y = max (- 1022) (binade_search 1100 \<bar>y\<bar> 0)"

definition double_ulp :: "real \<Rightarrow> real" where
  "double_ulp y = 2 powi (binade y - 52)"

definition double_round :: "real \<Rightarrow> real" where
  "double_round y =
     (if y = 0 then 0 else real_of_int (round_half_even (y / double_ulp y)) * double_ulp y)"

definition float_result :: "real \<Rightarrow> real option" where
  "float_result y = (if \<bar>double_round y\<bar> \<ge> 2 ^ 1024 then None else Some (double_round y))"

subsection \<open>Encoders and decoder\<close>

text \<open>\<^verbatim>\<open>int(x)\<close> truncates towards zero, and \<^verbatim>\<open>to_bytes(2, 'big')\<close> raises \<^verbatim>\<open>OverflowError\<close>
  outside \<open>0..65535\<close>.\<close>

definition py_int :: "real \<Rightarrow> int" where
  "py_int x = (if x \<ge> 0 then \<lfloor>x\<rfloor> else \<lceil>x\<rceil>)"

datatype codec_error = OverflowError

definition to_bytes2 :: "int \<Rightarrow> codec_error + 8 word list" where
  "to_bytes2 val =
     (if val < 0 \<or> val > 65535 then Inl OverflowError
      else Inr [word_of_int (val div 256), word_of_int (val mod 256)])"

definition payload_of :: "int \<Rightarrow> codec_error + 8 word list" where
  "payload_of val = (case to_bytes2 val of Inl e \<Rightarrow> Inl e | Inr bs \<Rightarrow> Inr (bs @ replicate 6 0))"

definition encode_steering :: "real \<Rightarrow> codec_error + 8 word list" where
  "encode_steering target_steering =
     (case float_result (target_steering + 45) of
        None \<Rightarrow> Inl OverflowError
      | Some a \<Rightarrow>
          (case float_result (a * 10) of
             None \<Rightarrow> Inl OverflowError
           | Some b \<Rightarrow> payload_of (py_int b)))"

definition encode_speed :: "real \<Rightarrow> codec_error + 8 word list" where
  "encode_speed target_speed =
     (case float_result (target_speed * 10) of
        None \<Rightarrow> Inl OverflowError
      | Some b \<Rightarrow> payload_of (py_int b))"

definition encode_brake :: "real \<Rightarrow> codec_error + 8 word list" where
  "encode_brake target_brake =
     (case float_result (target_brake * 10) of
        None \<Rightarrow> Inl OverflowError
      | Some b \<Rightarrow> payload_of (py_int b))"

definition from_bytes_big :: "8 word list \<Rightarrow> int" where
  "from_bytes_big bs = foldl (\<lambda>acc b. acc * 256 + uint b) 0 bs"

text \<open>The decoded signal name and value; \<open>None\<close> for a frame id the listener ignores.  The two
  bytes give an integer of at most 65535, so neither float operation can overflow.\<close>

definition decode_signal :: "int \<Rightarrow> 8 word list \<Rightarrow> (string \<times> real) option" where
  "decode_signal cid data =
     (if cid = 0x120
      then Some (''steering'',
                 double_round (double_round (real_of_int (from_bytes_big (take 2 data)) / 10) - 45))
      else if cid = 0x130
      then Some (''speed'', double_round (real_of_int (from_bytes_big (take 2 data)) / 10))
      else if cid = 0x140
      then Some (''brake'', double_round (real_of_int (from_bytes_big (take 2 data)) / 10))
      else None)"

section \<open>Example data\<close>

text \<open>
  Concrete signers, envelopes and states for the closed examples below: the speed ECU's signer as
  \<^verbatim>\<open>MessageSigner("vehicleA-speed-ecu")\<close> builds it without a sequence file, the envelope it
  signs for a speed of 30 km/h at a given time and sequence, and a verifier that has accepted
  sequence \<open>n\<close> from that device.
\<close>

definition speed_ecu_signer :: signer where
  "speed_ecu_signer =
     \<lparr>signer_device_id = ''vehicleA-speed-ecu'', signer_key = ''speed_key_v1_secret_2024'',
      signer_sequence = 1\<rparr>"

definition speed_frame :: "int \<Rightarrow> int \<Rightarrow> secure_msg" where
  "speed_frame now seq =
     fst (sign_message sample_mac now (speed_ecu_signer\<lparr>signer_sequence := seq - 1\<rparr>) 0x130
            [0x01, 0x2C, 0, 0, 0, 0, 0, 0])"

definition verifier_with_last :: "int \<Rightarrow> verifier" where
  "verifier_with_last n =
     MessageVerifier_init\<lparr>last_sequences := (\<lambda>_. 0)(''vehicleA-speed-ecu'' := n)\<rparr>"

definition forged_frame :: secure_msg where
  "forged_frame = (speed_frame 1000 2)\<lparr>signature := Some ''00''\<rparr>"

text \<open>
  An IPS engine that stored a steering angle of 10 degrees while OFF and then saw trust 0.75;
  three policy updates that end in a running recovery; and the physics validator after a first
  frame with speed 70 km/h.
\<close>

definition soft_limited :: IPSState where
  "soft_limited =
     snd (update_policy 100 (snd (sanitize_steering IPSState_init 10)) (75 / 100))"

definition recovering_calls :: "ips_call list" where
  "recovering_calls = [Update_policy 10 (6 / 10), Update_policy 11 (9 / 10), Update_policy 14 (95 / 100)]"

definition physics_after_speed_frame :: PhysicsValidator where
  "physics_after_speed_frame = snd (get_physics_score (PhysicsValidator_init 0) 70 0 0 1)"

section \<open>Verifier and signer: supporting facts\<close>

text \<open>Once an envelope is past the field, device and timestamp checks, the rest of
  \<^verbatim>\<open>verify_message\<close> is the sequence check followed by the digest comparison.\<close>

lemma verify_message_after_early_checks:
  assumes "reaches_sequence_check now m"
  shows "verify_message mac now v m =
     (let dev = the (device_id m); seq = the (sequence m); sig = the (signature m);
          last_seq = last_sequences v dev in
      if seq \<le> last_seq \<and> \<not> seq < last_seq - 100
      then ((False, Sequence_replay seq last_seq), v)
      else
        let v1 = (if seq \<le> last_seq
                  then v\<lparr>last_sequences := (last_sequences v)(dev := seq)\<rparr> else v);
            expected_signature = expected_signature_of mac m
        in if \<not> (is_ascii sig \<and> is_ascii expected_signature)
           then ((False, Verification_error), v1)
           else if sig \<noteq> expected_signature
           then ((False, Invalid_HMAC_signature), v1)
           else ((True, Valid_message),
                 v1\<lparr>last_sequences := (last_sequences v1)(dev := seq),
                    message_history := (message_history v1)
                      (dev := filter (\<lambda>t. t > now - TIMESTAMP_WINDOW_MS)
                                (message_history v1 dev @ [the (timestamp m)]))\<rparr>))"
  using assms
  by (auto simp: verify_message_def reaches_sequence_check_def expected_signature_of_def Let_def
           split: option.splits)

text \<open>An envelope that fails one of the three early checks is rejected and leaves the verifier
  as it was.\<close>

lemma verify_message_rejects_early:
  assumes "\<not> reaches_sequence_check now m"
  shows "fst (fst (verify_message mac now v m)) = False \<and> snd (verify_message mac now v m) = v"
  using assms
  by (auto simp: verify_message_def reaches_sequence_check_def Let_def split: option.splits)

text \<open>Acceptance implies that the carried signature is the digest recomputed from the carried
  device id, timestamp, sequence, frame id and payload: an envelope altered in any of them is
  rejected unless the digest of the altered text is the carried signature.\<close>

lemma verify_accepts_only_expected_signature:
  assumes "fst (fst (verify_message mac now v m))"
  shows "reaches_sequence_check now m \<and> the (signature m) = expected_signature_of mac m"
proof -
  have r: "reaches_sequence_check now m"
    using assms verify_message_rejects_early [of now m mac v] by auto
  show ?thesis
    using assms r by (auto simp: verify_message_after_early_checks Let_def split: if_splits)
qed

lemma sign_message_fields:
  "fst (sign_message mac now s cid data) =
     \<lparr>device_id = Some (signer_device_id s), timestamp = Some now,
      sequence = Some (signer_sequence s + 1), key_version = Some CURRENT_KEY_VERSION,
      can_id = Some cid, payload = Some (hex_bytes data),
      signature = Some (mac (signer_key s)
        (message_data (signer_device_id s) now (signer_sequence s + 1) cid (hex_bytes data)))\<rparr>"
  by (simp add: sign_message_def Let_def)

lemma hex_bytes_empty: "hex_bytes data = [] \<longleftrightarrow> data = []"
  by (cases data) (simp_all add: hex_bytes_def)

text \<open>A freshly signed envelope with a non-zero frame id, a non-empty payload, a non-zero
  timestamp and sequence, and a sequence above the verifier's last one for the device, is
  accepted inside the timestamp window (the digest of a real HMAC-SHA256 is 64 hexadecimal
  digits, hence non-empty and ASCII).\<close>

lemma verify_accepts_signed:
  assumes key: "get_device_key (signer_device_id s) = Some (signer_key s)"
    and nonempty: "signer_device_id s \<noteq> []" "signer_key s \<noteq> []" "data \<noteq> []"
    and nonzero: "cid \<noteq> 0" "now \<noteq> 0" "signer_sequence s + 1 \<noteq> 0"
    and digest: "mac (signer_key s) (message_data (signer_device_id s) now
                   (signer_sequence s + 1) cid (hex_bytes data)) = d" "d \<noteq> []" "is_ascii d"
    and fresh: "\<bar>now' - now\<bar> \<le> TIMESTAMP_WINDOW_MS"
    and above: "last_sequences v (signer_device_id s) < signer_sequence s + 1"
  shows "fst (verify_message mac now' v (fst (sign_message mac now s cid data)))
           = (True, Valid_message)"
proof -
  let ?m = "fst (sign_message mac now s cid data)"
  have r: "reaches_sequence_check now' ?m"
    using assms
    by (simp add: reaches_sequence_check_def sign_message_fields truthy_str_def truthy_int_def
          hex_bytes_empty)
  have e: "expected_signature_of mac ?m = d"
    using key digest(1) by (simp add: expected_signature_of_def sign_message_fields)
  have "fst (verify_message mac now' v ?m) = (True, Valid_message)"
    unfolding verify_message_after_early_checks [OF r] e
    using above digest by (simp add: Let_def sign_message_fields)
  then show ?thesis .
qed

lemma is_ascii_append [simp]: "is_ascii (a @ b) \<longleftrightarrow> is_ascii a \<and> is_ascii b"
  by (simp add: is_ascii_def)

lemma is_ascii_Nil [simp]: "is_ascii []"
  by (simp add: is_ascii_def)

lemma is_ascii_Cons [simp]: "is_ascii (c # s) \<longleftrightarrow> (of_char c :: nat) < 128 \<and> is_ascii s"
  by (simp add: is_ascii_def)

lemma is_ascii_str_nat: "is_ascii (str_nat n)"
proof (induction n rule: str_nat.induct)
  case (1 n)
  have d: "\<And>k. k < 10 \<Longrightarrow> is_ascii [digit_char k]"
    by (simp add: digit_char_def)
  show ?case
  proof (cases "n < 10")
    case True
    then show ?thesis using d by (subst str_nat.simps) simp
  next
    case False
    then show ?thesis using 1 d [of "n mod 10"] by (subst str_nat.simps) simp
  qed
qed

lemma is_ascii_str_int [simp]: "is_ascii (str_int i)"
  by (simp add: str_int_def is_ascii_str_nat)

lemma hex_bytes_speed_30: "hex_bytes [0x01, 0x2C, 0, 0, 0, 0, 0, 0] = ''012c000000000000''"
  by code_simp

lemma speed_frame_eq:
  "speed_frame now seq =
     \<lparr>device_id = Some ''vehicleA-speed-ecu'', timestamp = Some now, sequence = Some seq,
      key_version = Some 1, can_id = Some 304, payload = Some ''012c000000000000'',
      signature = Some (''speed_key_v1_secret_2024'' @
         message_data ''vehicleA-speed-ecu'' now seq 304 ''012c000000000000'')\<rparr>"
  by (simp add: speed_frame_def sign_message_fields speed_ecu_signer_def sample_mac_def
        CURRENT_KEY_VERSION_def hex_bytes_speed_30)

lemma speed_frame_reaches:
  "now \<noteq> 0 \<Longrightarrow> seq \<noteq> 0 \<Longrightarrow> \<bar>now' - now\<bar> \<le> 5000 \<Longrightarrow> reaches_sequence_check now' (speed_frame now seq)"
  by (simp add: speed_frame_eq reaches_sequence_check_def truthy_str_def truthy_int_def
        get_device_key_def DEVICE_KEYS_def TIMESTAMP_WINDOW_MS_def)

lemma speed_frame_expected:
  "expected_signature_of sample_mac (speed_frame now seq) = the (signature (speed_frame now seq))"
  by (simp add: speed_frame_eq expected_signature_of_def get_device_key_def DEVICE_KEYS_def
        sample_mac_def)

lemma speed_frame_ascii: "is_ascii (the (signature (speed_frame now seq)))"
  by (simp add: speed_frame_eq message_data_def)

section \<open>Verifier: a signed envelope with frame id 0\<close>

text \<open>
  C2.  The claim: for a device with a configured key, an envelope produced by that device's
  signer verifies when it is submitted fresh, and altering payload, timestamp, sequence or
  device id makes verification fail.  The code does not do this for frame id 0: the signer of
  \<^verbatim>\<open>vehicleA-speed-ecu\<close>, built without a sequence file, signs the eight-byte zero payload for
  frame id 0 at time 1000 ms; a new verifier, asked at the same instant, answers
  "Missing required fields" for every HMAC function, because \<^verbatim>\<open>all([...])\<close> takes the
  integer 0 for a missing field.
\<close>

theorem sign_verify_frame_id_zero:
  "MessageSigner_init ''vehicleA-speed-ecu'' None = Inr speed_ecu_signer
   \<and> verify_message mac 1000 MessageVerifier_init
         (fst (sign_message mac 1000 speed_ecu_signer 0 [0, 0, 0, 0, 0, 0, 0, 0]))
       = ((False, Missing_required_fields), MessageVerifier_init)"
  by (simp add: MessageSigner_init_def get_device_key_def DEVICE_KEYS_def verify_message_def
        sign_message_fields truthy_int_def speed_ecu_signer_def)

section \<open>Verifier: rejection of falsy fields\<close>

text \<open>
  C10.  The guard \<^verbatim>\<open>if not all([...])\<close> tests truthiness, so an envelope in which a required
  field is present but falsy (sequence 0, frame id 0, timestamp 0, or an empty device id,
  payload or signature) is rejected with the reason "Missing required fields" and the verifier
  is left unchanged, whatever the other fields, the clock and the verifier state are.  In
  particular the envelope that a signer produces for frame id 0 is rejected by every verifier
  at every time.
\<close>

theorem verify_rejects_falsy_field:
  "((device_id m = Some [] \<or> timestamp m = Some 0 \<or> sequence m = Some 0 \<or> can_id m = Some 0
      \<or> payload m = Some [] \<or> signature m = Some [])
    \<longrightarrow> verify_message mac now v m = ((False, Missing_required_fields), v))
   \<and> verify_message mac now' v (fst (sign_message mac now s 0 data))
       = ((False, Missing_required_fields), v)"
  by (auto simp: verify_message_def truthy_str_def truthy_int_def sign_message_fields)

theorem verify_rejects_falsy_field_witness:
  "can_id \<lparr>device_id = Some ''vehicleA-speed-ecu'', timestamp = Some 1000, sequence = Some 2,
           key_version = Some 1, can_id = Some 0, payload = Some ''0000000000000000'',
           signature = Some ''00''\<rparr> = Some 0
   \<and> verify_message sample_mac 1000 MessageVerifier_init
        \<lparr>device_id = Some ''vehicleA-speed-ecu'', timestamp = Some 1000, sequence = Some 2,
         key_version = Some 1, can_id = Some 0, payload = Some ''0000000000000000'',
         signature = Some ''00''\<rparr>
      = ((False, Missing_required_fields), MessageVerifier_init)"
  using verify_rejects_falsy_field [of
     "\<lparr>device_id = Some ''vehicleA-speed-ecu'', timestamp = Some 1000, sequence = Some 2,
       key_version = Some 1, can_id = Some 0, payload = Some ''0000000000000000'',
       signature = Some ''00''\<rparr>" sample_mac 1000 MessageVerifier_init]
  by simp

section \<open>Verifier: the sequence check\<close>

text \<open>
  The claim C3 as it is written, for every envelope whose sequence is at most the last accepted
  one, fails on an envelope that is stopped before the sequence check.  The speed ECU's
  envelope with sequence 2, signed at 1000 ms, is accepted by a new verifier; replayed unchanged
  at 7000 ms its sequence equals the last accepted one, but the answer is "Message too old:
  6000ms", not "Sequence replay".
\<close>

theorem stale_replay_not_reported_as_replay:
  "fst (verify_message sample_mac 1000 MessageVerifier_init (speed_frame 1000 2))
      = (True, Valid_message)
   \<and> sequence (speed_frame 1000 2) = Some 2
   \<and> last_sequences (snd (verify_message sample_mac 1000 MessageVerifier_init (speed_frame 1000 2)))
        ''vehicleA-speed-ecu'' = 2
   \<and> fst (verify_message sample_mac 7000
            (snd (verify_message sample_mac 1000 MessageVerifier_init (speed_frame 1000 2)))
            (speed_frame 1000 2))
      = (False, Message_too_old 6000)"
proof -
  have r: "reaches_sequence_check 1000 (speed_frame 1000 2)"
    by (rule speed_frame_reaches) simp_all
  have a: "verify_message sample_mac 1000 MessageVerifier_init (speed_frame 1000 2) =
     ((True, Valid_message),
      \<lparr>last_sequences = (\<lambda>_. 0)(''vehicleA-speed-ecu'' := 2),
       message_history = (\<lambda>_. [])(''vehicleA-speed-ecu'' := [1000])\<rparr>)"
    unfolding verify_message_after_early_checks [OF r] speed_frame_expected
    using speed_frame_ascii [of 1000 2]
    by (simp add: Let_def MessageVerifier_init_def TIMESTAMP_WINDOW_MS_def)
       (simp add: speed_frame_eq)
  have b: "fst (verify_message sample_mac 7000 v (speed_frame 1000 2))
             = (False, Message_too_old 6000)" for v
    by (simp add: verify_message_def speed_frame_eq truthy_str_def truthy_int_def
          get_device_key_def DEVICE_KEYS_def TIMESTAMP_WINDOW_MS_def Let_def)
  show ?thesis
    unfolding a using b by (simp add: speed_frame_eq)
qed

text \<open>
  C3, amended.  Every envelope whose sequence is at most the verifier's last accepted sequence
  for its device, and not lower than it by more than 100, is rejected and leaves the verifier
  unchanged; the reason is "Sequence replay" when the envelope passes the earlier checks of
  \<^verbatim>\<open>verify_message\<close> (all required fields truthy, a device with a key, a timestamp within
  5000 ms of the clock).  If such an envelope's sequence is lower than the last accepted one by
  more than 100, the per-device counter is re-anchored to the envelope's sequence and
  verification proceeds to the digest comparison, whose outcome is the answer.
\<close>

theorem sequence_check_after_early_checks:
  "(the (sequence m) \<le> last_sequences v (the (device_id m))
      \<and> \<not> the (sequence m) < last_sequences v (the (device_id m)) - 100
    \<longrightarrow> \<not> fst (fst (verify_message mac now v m)) \<and> snd (verify_message mac now v m) = v)
   \<and> (reaches_sequence_check now m
      \<and> the (sequence m) \<le> last_sequences v (the (device_id m))
    \<longrightarrow> (\<not> the (sequence m) < last_sequences v (the (device_id m)) - 100 \<longrightarrow>
            verify_message mac now v m =
              ((False, Sequence_replay (the (sequence m)) (last_sequences v (the (device_id m)))), v))
       \<and> (the (sequence m) < last_sequences v (the (device_id m)) - 100 \<longrightarrow>
            last_sequences (snd (verify_message mac now v m)) (the (device_id m)) = the (sequence m)
            \<and> fst (verify_message mac now v m) =
                (if \<not> (is_ascii (the (signature m)) \<and> is_ascii (expected_signature_of mac m))
                 then (False, Verification_error)
                 else if the (signature m) \<noteq> expected_signature_of mac m
                 then (False, Invalid_HMAC_signature)
                 else (True, Valid_message))))"
proof (intro conjI impI)
  assume a: "the (sequence m) \<le> last_sequences v (the (device_id m))
      \<and> \<not> the (sequence m) < last_sequences v (the (device_id m)) - 100"
  show "\<not> fst (fst (verify_message mac now v m))"
  proof (cases "reaches_sequence_check now m")
    case True
    then show ?thesis using a by (simp add: verify_message_after_early_checks Let_def)
  next
    case False
    then show ?thesis using verify_message_rejects_early [of now m mac v] by simp
  qed
  show "snd (verify_message mac now v m) = v"
  proof (cases "reaches_sequence_check now m")
    case True
    then show ?thesis using a by (simp add: verify_message_after_early_checks Let_def)
  next
    case False
    then show ?thesis using verify_message_rejects_early [of now m mac v] by simp
  qed
next
  assume r: "reaches_sequence_check now m
      \<and> the (sequence m) \<le> last_sequences v (the (device_id m))"
  then have r1: "reaches_sequence_check now m" by simp
  {
    assume "\<not> the (sequence m) < last_sequences v (the (device_id m)) - 100"
    then show "verify_message mac now v m =
        ((False, Sequence_replay (the (sequence m)) (last_sequences v (the (device_id m)))), v)"
      using r by (simp add: verify_message_after_early_checks [OF r1] Let_def)
  }
  {
    assume l: "the (sequence m) < last_sequences v (the (device_id m)) - 100"
    show "last_sequences (snd (verify_message mac now v m)) (the (device_id m)) = the (sequence m)"
      using r l by (simp add: verify_message_after_early_checks [OF r1] Let_def)
    show "fst (verify_message mac now v m) =
        (if \<not> (is_ascii (the (signature m)) \<and> is_ascii (expected_signature_of mac m))
         then (False, Verification_error)
         else if the (signature m) \<noteq> expected_signature_of mac m
         then (False, Invalid_HMAC_signature)
         else (True, Valid_message))"
      using r l by (simp add: verify_message_after_early_checks [OF r1] Let_def)
  }
qed

theorem sequence_check_after_early_checks_witness:
  "\<not> fst (fst (verify_message sample_mac 7000 (verifier_with_last 2) (speed_frame 1000 2)))
   \<and> reaches_sequence_check 1000 (speed_frame 1000 2)
   \<and> the (sequence (speed_frame 1000 2)) \<le> last_sequences (verifier_with_last 2) ''vehicleA-speed-ecu''
   \<and> verify_message sample_mac 1000 (verifier_with_last 2) (speed_frame 1000 2)
        = ((False, Sequence_replay 2 2), verifier_with_last 2)
   \<and> the (sequence (speed_frame 1000 2)) < last_sequences (verifier_with_last 500) ''vehicleA-speed-ecu'' - 100
   \<and> last_sequences (snd (verify_message sample_mac 1000 (verifier_with_last 500) (speed_frame 1000 2)))
        ''vehicleA-speed-ecu'' = 2
   \<and> fst (verify_message sample_mac 1000 (verifier_with_last 500) (speed_frame 1000 2))
        = (True, Valid_message)"
proof -
  have r: "reaches_sequence_check 1000 (speed_frame 1000 2)"
    by (rule speed_frame_reaches) simp_all
  have d: "the (device_id (speed_frame 1000 2)) = ''vehicleA-speed-ecu''"
          "the (sequence (speed_frame 1000 2)) = 2"
    by (simp_all add: speed_frame_eq)
  have l: "last_sequences (verifier_with_last n) ''vehicleA-speed-ecu'' = n" for n
    by (simp add: verifier_with_last_def)
  show ?thesis
    using r speed_frame_ascii [of 1000 2]
      sequence_check_after_early_checks [of "speed_frame 1000 2" "verifier_with_last 2" sample_mac 1000]
      sequence_check_after_early_checks [of "speed_frame 1000 2" "verifier_with_last 2" sample_mac 7000]
      sequence_check_after_early_checks [of "speed_frame 1000 2" "verifier_with_last 500" sample_mac 1000]
    by (simp add: d l speed_frame_expected)
qed

section \<open>Verifier: re-anchoring is kept when the envelope is rejected\<close>

text \<open>
  C9.  Verification is not atomic on error.  An envelope \<open>m\<close> that passes the early checks,
  whose sequence is lower than the device's last accepted sequence by more than 100 and whose
  signature is not the expected digest, is rejected, yet the verifier it leaves behind has the
  device's last sequence set to the sequence of \<open>m\<close>.  A correctly signed old envelope \<open>m'\<close>
  of the same device, with a sequence above that of \<open>m\<close> and at most the former last
  sequence, is then accepted, although the verifier before \<open>m\<close> rejected it as a replay
  whenever it was within 100 of the last sequence.
\<close>

theorem reanchor_survives_rejection:
  assumes "reaches_sequence_check now m"
    and "the (sequence m) < last_sequences v (the (device_id m)) - 100"
    and "the (signature m) \<noteq> expected_signature_of mac m"
    and "reaches_sequence_check now' m'"
    and "device_id m' = device_id m"
    and "the (sequence m) < the (sequence m')"
    and "the (sequence m') \<le> last_sequences v (the (device_id m))"
    and "the (signature m') = expected_signature_of mac m'"
    and "is_ascii (expected_signature_of mac m')"
  shows "fst (verify_message mac now v m) =
           (False, if is_ascii (the (signature m)) \<and> is_ascii (expected_signature_of mac m)
                   then Invalid_HMAC_signature else Verification_error)
       \<and> snd (verify_message mac now v m) =
           v\<lparr>last_sequences := (last_sequences v)(the (device_id m) := the (sequence m))\<rparr>
       \<and> fst (verify_message mac now' (snd (verify_message mac now v m)) m') = (True, Valid_message)
       \<and> (\<not> the (sequence m') < last_sequences v (the (device_id m)) - 100 \<longrightarrow>
            fst (verify_message mac now' v m') =
              (False, Sequence_replay (the (sequence m')) (last_sequences v (the (device_id m)))))"
proof -
  have first: "verify_message mac now v m =
      ((False, if is_ascii (the (signature m)) \<and> is_ascii (expected_signature_of mac m)
               then Invalid_HMAC_signature else Verification_error),
       v\<lparr>last_sequences := (last_sequences v)(the (device_id m) := the (sequence m))\<rparr>)"
    using assms(2,3) by (simp add: verify_message_after_early_checks [OF assms(1)] Let_def)
  have second: "fst (verify_message mac now'
        (v\<lparr>last_sequences := (last_sequences v)(the (device_id m) := the (sequence m))\<rparr>) m')
      = (True, Valid_message)"
    using assms(5,6,8,9) by (simp add: verify_message_after_early_checks [OF assms(4)] Let_def)
  have third: "\<not> the (sequence m') < last_sequences v (the (device_id m)) - 100 \<Longrightarrow>
      fst (verify_message mac now' v m') =
        (False, Sequence_replay (the (sequence m')) (last_sequences v (the (device_id m))))"
    using assms(5,7) by (simp add: verify_message_after_early_checks [OF assms(4)] Let_def)
  show ?thesis
    using second third by (simp add: first)
qed

theorem reanchor_survives_rejection_witness:
  "fst (verify_message sample_mac 1000 (verifier_with_last 500) forged_frame)
      = (False, Invalid_HMAC_signature)
   \<and> last_sequences (snd (verify_message sample_mac 1000 (verifier_with_last 500) forged_frame))
        ''vehicleA-speed-ecu'' = 2
   \<and> fst (verify_message sample_mac 1000
             (snd (verify_message sample_mac 1000 (verifier_with_last 500) forged_frame))
             (speed_frame 1000 450)) = (True, Valid_message)
   \<and> fst (verify_message sample_mac 1000 (verifier_with_last 500) (speed_frame 1000 450))
        = (False, Sequence_replay 450 500)"
proof -
  have r: "reaches_sequence_check 1000 forged_frame"
    using speed_frame_reaches [of 1000 2 1000]
    by (simp add: forged_frame_def reaches_sequence_check_def truthy_str_def)
  have r': "reaches_sequence_check 1000 (speed_frame 1000 450)"
    by (rule speed_frame_reaches) simp_all
  have d: "the (device_id forged_frame) = ''vehicleA-speed-ecu''"
          "the (sequence forged_frame) = 2" "the (signature forged_frame) = ''00''"
          "device_id (speed_frame 1000 450) = device_id forged_frame"
          "the (sequence (speed_frame 1000 450)) = 450"
    by (simp_all add: forged_frame_def speed_frame_eq)
  have e: "expected_signature_of sample_mac forged_frame = the (signature (speed_frame 1000 2))"
    by (simp add: forged_frame_def speed_frame_eq expected_signature_of_def get_device_key_def
          DEVICE_KEYS_def sample_mac_def)
  have ne: "the (signature forged_frame) \<noteq> expected_signature_of sample_mac forged_frame"
    by (simp add: e d speed_frame_eq)
  have l: "last_sequences (verifier_with_last n) ''vehicleA-speed-ecu'' = n" for n
    by (simp add: verifier_with_last_def)
  have a: "is_ascii (expected_signature_of sample_mac forged_frame)"
    using speed_frame_ascii [of 1000 2] by (simp add: e)
  have lt: "the (sequence forged_frame) < last_sequences (verifier_with_last 500) (the (device_id forged_frame)) - 100"
    by (simp add: d l)
  have lt': "the (sequence forged_frame) < the (sequence (speed_frame 1000 450))"
    by (simp add: d)
  have le': "the (sequence (speed_frame 1000 450)) \<le> last_sequences (verifier_with_last 500) (the (device_id forged_frame))"
    by (simp add: d l)
  have a': "is_ascii (expected_signature_of sample_mac (speed_frame 1000 450))"
    using speed_frame_ascii [of 1000 450] by (simp add: speed_frame_expected)
  note T = reanchor_survives_rejection [of 1000 forged_frame "verifier_with_last 500" sample_mac
        1000 "speed_frame 1000 450", OF r lt ne r' d(4) lt' le' speed_frame_expected [symmetric] a']
  have c1: "fst (verify_message sample_mac 1000 (verifier_with_last 500) forged_frame)
      = (False, Invalid_HMAC_signature)"
    using T a by (simp add: d)
  have c2: "last_sequences (snd (verify_message sample_mac 1000 (verifier_with_last 500) forged_frame))
        ''vehicleA-speed-ecu'' = 2"
    using T by (simp add: d)
  have c3: "fst (verify_message sample_mac 1000
             (snd (verify_message sample_mac 1000 (verifier_with_last 500) forged_frame))
             (speed_frame 1000 450)) = (True, Valid_message)"
    using T by blast
  have c4: "fst (verify_message sample_mac 1000 (verifier_with_last 500) (speed_frame 1000 450))
        = (False, Sequence_replay 450 500)"
    using T by (simp add: d l)
  show ?thesis
    using c1 c2 c3 c4 by blast
qed

section \<open>Trust engine: the update law\<close>

lemma trust_engine_after_snoc:
  "trust_engine_after e (calls @ [c]) = trust_call_step (trust_engine_after e calls) c"
  by (simp add: trust_engine_after_def)

text \<open>No method of the engine changes its weights, its recovery rate or its bounds, and the
  trust score stays between the bounds.\<close>

lemma trust_engine_invariant:
  "alpha (trust_engine_after (TrustEngine_init a b g t0) calls) = a
   \<and> beta (trust_engine_after (TrustEngine_init a b g t0) calls) = b
   \<and> gamma (trust_engine_after (TrustEngine_init a b g t0) calls) = g
   \<and> recovery_rate (trust_engine_after (TrustEngine_init a b g t0) calls) = 1 / 100
   \<and> min_trust (trust_engine_after (TrustEngine_init a b g t0) calls) = 0
   \<and> max_trust (trust_engine_after (TrustEngine_init a b g t0) calls) = 1
   \<and> 0 \<le> trust_score (trust_engine_after (TrustEngine_init a b g t0) calls)
   \<and> trust_score (trust_engine_after (TrustEngine_init a b g t0) calls) \<le> 1"
proof (induction calls rule: rev_induct)
  case Nil
  then show ?case by (simp add: trust_engine_after_def TrustEngine_init_def)
next
  case (snoc c calls)
  then show ?case
    by (cases c)
       (simp_all add: trust_engine_after_snoc update_trust_def reset_trust_def
          set_ml_enabled_def set_ips_active_def Let_def)
qed

text \<open>
  C4.  For an engine built by the constructor with weights \<open>a\<close>, \<open>b\<close>, \<open>g\<close> and then taken
  through any sequence of its methods, \<^verbatim>\<open>update_trust(anomaly, auth, temporal)\<close> returns, and
  stores as the new trust, the old trust minus \<open>a\<close> times the effective anomaly, minus
  \<open>b * (1 - auth)\<close>, minus \<open>g * (1 - temporal)\<close>, plus 0.01 when the effective anomaly is
  below 0.1, clamped to \<open>[0, 1]\<close>; the effective anomaly is the anomaly score when ML is
  enabled and 0 otherwise; the result lies in \<open>[0, 1]\<close>; and the constructor's defaults are
  0.10, 0.20, 0.05 with recovery rate 0.01.
\<close>

theorem trust_update_law:
  "fst (update_trust now (trust_engine_after (TrustEngine_init a b g t0) calls)
          anomaly auth temporal)
     = clamp (trust_score (trust_engine_after (TrustEngine_init a b g t0) calls)
               - a * effective_anomaly_score (trust_engine_after (TrustEngine_init a b g t0) calls) anomaly
               - b * (1 - auth) - g * (1 - temporal)
               + (if effective_anomaly_score (trust_engine_after (TrustEngine_init a b g t0) calls) anomaly
                      < 1 / 10 then 1 / 100 else 0)) 0 1
   \<and> trust_score (snd (update_trust now (trust_engine_after (TrustEngine_init a b g t0) calls)
          anomaly auth temporal))
     = fst (update_trust now (trust_engine_after (TrustEngine_init a b g t0) calls)
          anomaly auth temporal)
   \<and> 0 \<le> fst (update_trust now (trust_engine_after (TrustEngine_init a b g t0) calls)
          anomaly auth temporal)
   \<and> fst (update_trust now (trust_engine_after (TrustEngine_init a b g t0) calls)
          anomaly auth temporal) \<le> 1
   \<and> effective_anomaly_score (trust_engine_after (TrustEngine_init a b g t0) calls) anomaly
     = (if ml_enabled (trust_engine_after (TrustEngine_init a b g t0) calls) then anomaly else 0)
   \<and> TrustEngine_default t0 = TrustEngine_init (1 / 10) (2 / 10) (5 / 100) t0
   \<and> recovery_rate (TrustEngine_default t0) = 1 / 100"
proof -
  define e where "e = trust_engine_after (TrustEngine_init a b g t0) calls"
  have i: "alpha e = a" "beta e = b" "gamma e = g" "recovery_rate e = 1 / 100"
    "min_trust e = 0" "max_trust e = 1"
    using trust_engine_invariant [of a b g t0 calls] unfolding e_def by simp_all
  have law: "fst (update_trust now e anomaly auth temporal)
     = clamp (trust_score e - a * effective_anomaly_score e anomaly
               - b * (1 - auth) - g * (1 - temporal)
               + (if effective_anomaly_score e anomaly < 1 / 10 then 1 / 100 else 0)) 0 1"
    unfolding update_trust_def Let_def clamp_def i by (simp add: algebra_simps)
  have stored: "trust_score (snd (update_trust now e anomaly auth temporal))
     = fst (update_trust now e anomaly auth temporal)"
    by (simp add: update_trust_def Let_def)
  have bounds: "0 \<le> fst (update_trust now e anomaly auth temporal)"
    "fst (update_trust now e anomaly auth temporal) \<le> 1"
    unfolding law clamp_def by simp_all
  have eff: "effective_anomaly_score e anomaly = (if ml_enabled e then anomaly else 0)"
    by (simp add: effective_anomaly_score_def)
  have dflt: "TrustEngine_default t0 = TrustEngine_init (1 / 10) (2 / 10) (5 / 100) t0"
    "recovery_rate (TrustEngine_default t0) = 1 / 100"
    by (simp_all add: TrustEngine_default_def TrustEngine_init_def)
  show ?thesis
    using law stored bounds eff dflt unfolding e_def by blast
qed

theorem trust_update_law_witness:
  "fst (update_trust 2 (trust_engine_after (TrustEngine_init (1 / 10) (2 / 10) (5 / 100) 0) [])
          (8 / 10) 1 1) = 92 / 100"
  using trust_update_law [of 2 "1 / 10" "2 / 10" "5 / 100" 0 "[]" "8 / 10" 1 1]
  by (simp add: clamp_def effective_anomaly_score_def trust_engine_after_def TrustEngine_init_def)

section \<open>IPS policy engine: recovery\<close>

lemma get_policy_limits_mode [simp]: "policy_mode (get_policy_limits s) = mode s"
  by (cases "mode s") (simp_all add: get_policy_limits_def)

lemma recovery_started_snoc:
  assumes "recovery_started calls t0" and "keeps_recovery c"
  shows "recovery_started (calls @ [c]) t0"
proof -
  from assms(1) obtain pre post trust0 where
    d: "calls = pre @ Update_policy t0 trust0 # post" "trust0 \<ge> 8 / 10"
       "list_all keeps_recovery post"
    unfolding recovery_started_def by blast
  have "calls @ [c] = pre @ Update_policy t0 trust0 # (post @ [c])"
    using d(1) by simp
  moreover have "list_all keeps_recovery (post @ [c])"
    using d(3) assms(2) by simp
  ultimately show ?thesis
    unfolding recovery_started_def using d(2) by blast
qed

lemma recovery_started_now:
  assumes "trust \<ge> 8 / 10"
  shows "recovery_started (calls @ [Update_policy t trust]) t"
proof -
  have "calls @ [Update_policy t trust] = calls @ Update_policy t trust # []"
    by simp
  moreover have "list_all keeps_recovery []"
    by simp
  ultimately show ?thesis
    unfolding recovery_started_def using assms by blast
qed

lemma ips_after_snoc: "ips_after (calls @ [c]) = ips_call_step (ips_after calls) c"
  by (simp add: ips_after_def)

text \<open>In every state the engine reaches from its constructor: a disabled engine is OFF with a
  cleared timer, and a running timer in a non-OFF mode is the time of an update since which
  every call has kept the recovery running.\<close>

lemma ips_invariant:
  "(\<not> enabled (ips_after calls) \<longrightarrow>
       mode (ips_after calls) = OFF \<and> recovery_timer (ips_after calls) = 0)
   \<and> (mode (ips_after calls) \<noteq> OFF \<and> recovery_timer (ips_after calls) \<noteq> 0 \<longrightarrow>
       recovery_started calls (recovery_timer (ips_after calls)))"
proof (induction calls rule: rev_induct)
  case Nil
  then show ?case by (simp add: ips_after_def IPSState_init_def)
next
  case (snoc c calls)
  let ?s = "ips_after calls"
  show ?case
  proof (cases c)
    case (Set_enabled b)
    then show ?thesis
      using snoc recovery_started_snoc [of calls "recovery_timer ?s" c]
      by (cases b) (simp_all add: ips_after_snoc set_enabled_def)
  next
    case (Update_policy t trust)
    show ?thesis
    proof (cases "enabled ?s")
      case False
      then show ?thesis using snoc Update_policy
        by (simp add: ips_after_snoc update_policy_def)
    next
      case en: True
      show ?thesis
      proof (cases "trust < 8 / 10")
        case True
        then show ?thesis using en Update_policy
          by (simp add: ips_after_snoc update_policy_def Let_def)
      next
        case hi: False
        then have k: "keeps_recovery c" using Update_policy by simp
        show ?thesis
        proof (cases "mode ?s = OFF")
          case True
          then show ?thesis using en hi Update_policy
            by (simp add: ips_after_snoc update_policy_def Let_def)
        next
          case non_off: False
          show ?thesis
          proof (cases "recovery_timer ?s = 0")
            case True
            then show ?thesis
              using en hi non_off Update_policy recovery_started_now [of trust calls t]
              by (simp add: ips_after_snoc update_policy_def Let_def)
          next
            case running: False
            then show ?thesis
              using en hi non_off Update_policy snoc k
                recovery_started_snoc [of calls "recovery_timer ?s" c]
              by (simp add: ips_after_snoc update_policy_def Let_def)
          qed
        qed
      qed
    qed
  qed
qed

text \<open>
  The claim C5 as it is written, that the engine never goes from a non-OFF mode back to OFF
  unless trust has stayed at or above 0.8 for 5 seconds, fails for the engine's switch.  After
  one update with trust 0.6 the engine is in SAFE_MODE; \<^verbatim>\<open>set_enabled(False)\<close> puts it in OFF
  at once, and after \<^verbatim>\<open>set_enabled(True)\<close> it is enabled and OFF, back in the constructor's
  state, although no update ever saw trust at or above 0.8.
\<close>

theorem engine_switched_off_without_recovery:
  "mode (ips_after [Update_policy 10 (6 / 10)]) = SAFE_MODE
   \<and> mode (ips_call_step (ips_after [Update_policy 10 (6 / 10)]) (Set_enabled False)) = OFF
   \<and> ips_after [Update_policy 10 (6 / 10), Set_enabled False, Set_enabled True] = IPSState_init"
  by (simp add: ips_after_def update_policy_def set_enabled_def IPSState_init_def Let_def)

text \<open>
  C5, amended.  A reachable engine goes from a non-OFF mode to OFF only by
  \<^verbatim>\<open>set_enabled(False)\<close>, which switches it off at once, or by an update of the policy whose
  trust is at least 0.8 when some earlier update, more than 5 seconds before on the engine's
  clock, saw trust at least 0.8 and no update since has been below 0.8.  An update with trust
  below 0.8 leaves the recovery timer at zero.
\<close>

theorem ips_leaves_non_off_by_recovery_or_switch:
  "(mode (ips_after calls) \<noteq> OFF \<and> mode (ips_call_step (ips_after calls) c) = OFF
    \<longrightarrow> c = Set_enabled False
        \<or> (\<exists>now trust pre post t0 trust0. c = Update_policy now trust \<and> trust \<ge> 8 / 10
              \<and> calls = pre @ Update_policy t0 trust0 # post
              \<and> trust0 \<ge> 8 / 10 \<and> list_all keeps_recovery post \<and> now - t0 > 5))
   \<and> (trust' < 8 / 10 \<longrightarrow>
         recovery_timer (snd (update_policy now' (ips_after calls) trust')) = 0)"
proof -
  let ?s = "ips_after calls"
  note inv = ips_invariant [of calls]
  have second: "trust' < 8 / 10 \<longrightarrow> recovery_timer (snd (update_policy now' ?s trust')) = 0"
    using inv by (simp add: update_policy_def Let_def)
  have first: "c = Set_enabled False
        \<or> (\<exists>now trust pre post t0 trust0. c = Update_policy now trust \<and> trust \<ge> 8 / 10
              \<and> calls = pre @ Update_policy t0 trust0 # post
              \<and> trust0 \<ge> 8 / 10 \<and> list_all keeps_recovery post \<and> now - t0 > 5)"
    if a: "mode ?s \<noteq> OFF" and b: "mode (ips_call_step ?s c) = OFF"
  proof (cases c)
    case (Set_enabled e)
    then show ?thesis using a b by (cases e) (simp_all add: set_enabled_def)
  next
    case (Update_policy now trust)
    then have b': "mode (snd (update_policy now ?s trust)) = OFF" using b by simp
    have en: "enabled ?s" using a inv by blast
    have hi: "trust \<ge> 8 / 10"
      using a b' en by (auto simp: update_policy_def Let_def split: if_splits)
    have run: "recovery_timer ?s \<noteq> 0 \<and> now - recovery_timer ?s > 5"
      using a b' en hi by (auto simp: update_policy_def Let_def split: if_splits)
    then have "recovery_started calls (recovery_timer ?s)" using a inv by blast
    then show ?thesis using hi run Update_policy unfolding recovery_started_def by blast
  qed
  show ?thesis using first second by blast
qed

lemma recovering_calls_state:
  "ips_after recovering_calls = IPSState_init\<lparr>mode := SAFE_MODE, recovery_timer := 11\<rparr>"
  by (simp add: recovering_calls_def ips_after_def update_policy_def IPSState_init_def Let_def)

theorem ips_leaves_non_off_by_recovery_or_switch_witness:
  "mode (ips_after recovering_calls) \<noteq> OFF
   \<and> mode (ips_call_step (ips_after recovering_calls) (Update_policy 17 (9 / 10))) = OFF
   \<and> recovering_calls = [Update_policy 10 (6 / 10)] @ Update_policy 11 (9 / 10) # [Update_policy 14 (95 / 100)]
   \<and> (17 :: real) - 11 > 5
   \<and> mode (ips_call_step (ips_after recovering_calls) (Set_enabled False)) = OFF
   \<and> mode (ips_call_step (ips_after recovering_calls) (Update_policy 15 (9 / 10))) = SAFE_MODE
   \<and> recovery_timer (snd (update_policy 15 (ips_after recovering_calls) (75 / 100))) = 0"
  using ips_leaves_non_off_by_recovery_or_switch [of recovering_calls "Update_policy 17 (9 / 10)" "75 / 100" 15]
    ips_leaves_non_off_by_recovery_or_switch [of recovering_calls "Set_enabled False" "75 / 100" 15]
  by (simp add: recovering_calls_state update_policy_def set_enabled_def IPSState_init_def Let_def)
     (simp add: recovering_calls_def)

section \<open>IPS policy engine: sanitisation\<close>

lemma sanitize_steering_non_off:
  "mode s \<noteq> OFF \<Longrightarrow>
     sanitize_steering s requested =
       (max (- the (steering_limit (get_policy_limits s)))
          (min (the (steering_limit (get_policy_limits s))) (last_safe_steering s * (9 / 10))), s)"
  by (simp add: sanitize_steering_def Let_def)

lemma sanitize_speed_non_off:
  "mode s \<noteq> OFF \<Longrightarrow>
     sanitize_speed s requested current =
       (max (min (the (speed_limit (get_policy_limits s))) (current + 2)) 10, s)"
  by (simp add: sanitize_speed_def Let_def)

lemma soft_limited_eq:
  "soft_limited = IPSState_init\<lparr>mode := SOFT_LIMIT, last_safe_steering := 10\<rparr>"
  by (simp add: soft_limited_def update_policy_def sanitize_steering_def IPSState_init_def Let_def)

text \<open>
  C8.  In a non-OFF mode \<^verbatim>\<open>sanitize_speed\<close> returns the same value and leaves the same state
  for any two requested speeds (with the same current speed), and \<^verbatim>\<open>sanitize_steering\<close> does
  so for any two requested angles.
\<close>

theorem sanitize_ignores_request:
  "mode s \<noteq> OFF \<longrightarrow>
     sanitize_speed s speed1 current = sanitize_speed s speed2 current
     \<and> sanitize_steering s angle1 = sanitize_steering s angle2"
  by (simp add: sanitize_speed_non_off sanitize_steering_non_off)

theorem sanitize_ignores_request_witness:
  "mode soft_limited \<noteq> OFF
   \<and> sanitize_speed soft_limited 120 30 = (32, soft_limited)
   \<and> sanitize_speed soft_limited 0 30 = (32, soft_limited)
   \<and> sanitize_steering soft_limited 30 = (9, soft_limited)
   \<and> sanitize_steering soft_limited (- 30) = (9, soft_limited)"
proof -
  have m: "mode soft_limited \<noteq> OFF"
    by (simp add: soft_limited_eq IPSState_init_def)
  have a: "sanitize_speed soft_limited 0 30 = (32, soft_limited)"
    by (simp add: sanitize_speed_non_off [OF m]) (simp add: soft_limited_eq get_policy_limits_def IPSState_init_def)
  have b: "sanitize_steering soft_limited (- 30) = (9, soft_limited)"
    by (simp add: sanitize_steering_non_off [OF m]) (simp add: soft_limited_eq get_policy_limits_def IPSState_init_def)
  show ?thesis
    using m a b sanitize_ignores_request [of soft_limited 120 30 0 30 "- 30"] by simp
qed

text \<open>
  C6.  The claim: in a non-OFF mode each call of \<^verbatim>\<open>sanitize_steering\<close> decays the stored
  last-safe steering by the factor 0.9, so that consecutive calls return values shrinking as
  \<open>0.9 ^ n\<close>.  The code computes \<open>0.9\<close> times the stored value and clamps it, but never
  writes it back.  In SOFT_LIMIT with a stored angle of 10 degrees the first call returns 9 and
  leaves the state as it was, and the second call returns 9 again, not \<open>10 * 0.9\<^sup>2 = 8.1\<close>.
\<close>

theorem sanitize_steering_does_not_decay:
  "mode soft_limited = SOFT_LIMIT \<and> last_safe_steering soft_limited = 10
   \<and> sanitize_steering soft_limited 20 = (9, soft_limited)
   \<and> sanitize_steering (snd (sanitize_steering soft_limited 20)) 20 = (9, soft_limited)
   \<and> fst (sanitize_steering (snd (sanitize_steering soft_limited 20)) 20) \<noteq> 10 * (9 / 10)^2"
proof -
  have m: "mode soft_limited \<noteq> OFF"
    by (simp add: soft_limited_eq IPSState_init_def)
  have b: "sanitize_steering soft_limited 20 = (9, soft_limited)"
    by (simp add: sanitize_steering_non_off [OF m]) (simp add: soft_limited_eq get_policy_limits_def IPSState_init_def)
  show ?thesis
    by (simp add: b power2_eq_square) (simp add: soft_limited_eq IPSState_init_def)
qed

section \<open>Listener: the physics override\<close>

lemma physics_after_speed_frame_eq:
  "physics_after_speed_frame =
     \<lparr>speed_history = [70], steering_history = [0], timestamp_history = [1],
      last_speed = 70, last_steering = 0, last_timestamp = 1\<rparr>"
  by (simp add: physics_after_speed_frame_def get_physics_score_def validate_speed_physics_def
        validate_steering_physics_def validate_correlation_def PhysicsValidator_init_def
        update_history_def deque_append_def reason_of_def Let_def)

lemma physics_example:
  "fst (get_physics_score physics_after_speed_frame 70 30 0 2) =
     \<lparr>physics_score = 88 / 100, speed_valid = True, steering_valid = True,
      correlation_valid = False, violation_speed = None, violation_steering = None,
      violation_correlation = Some (Violations [''extreme_steering_high_speed'']),
      overall_valid = False\<rparr>"
  by (simp add: physics_after_speed_frame_eq get_physics_score_def validate_speed_physics_def
        validate_steering_physics_def validate_correlation_def MAX_ACCELERATION_def
        MAX_DECELERATION_def MAX_SPEED_DELTA_PER_CYCLE_def
        update_history_def deque_append_def reason_of_def Let_def)

lemma not_ui: "\<not> str_contains ''vehicleA-steering-ecu'' ''ui-controller''"
  by simp

lemma is_ui: "str_contains ''vehicleA-ui-controller'' ''ui-controller''"
  by simp

text \<open>
  The claim C1 as it is written, for every frame the listener processes, fails while the
  listener is still training and for frames of the UI controller.  After a first frame with
  speed 70 km/h, a steering frame of 30 degrees one second later is physics-invalid (extreme
  steering at high speed); in training mode its final score is 0, and so is the final score of
  the same frame sent by \<^verbatim>\<open>vehicleA-ui-controller\<close> after training.
\<close>

theorem physics_invalid_frame_scored_zero:
  "\<not> overall_valid (fst (get_physics_score physics_after_speed_frame 70 30 0 2))
   \<and> total_anomaly_score ''vehicleA-steering-ecu'' True 0 None 0
        (fst (get_physics_score physics_after_speed_frame 70 30 0 2)) 0 = 0
   \<and> total_anomaly_score ''vehicleA-ui-controller'' False 0 None 0
        (fst (get_physics_score physics_after_speed_frame 70 30 0 2)) 0 = 0"
  by (simp add: physics_example total_anomaly_score_def not_ui is_ui)

text \<open>
  C1, amended.  For every frame that does not come from a UI-controller device and is processed
  when the listener is no longer in training mode, if the physics validator reports
  \<^verbatim>\<open>overall_valid = False\<close> then the final fused anomaly score is at least 0.8, whatever the
  ML score, the behavioural features, the contextual score and the temporal score are.
\<close>

theorem physics_override_after_training:
  "\<not> (dev \<noteq> [] \<and> str_contains dev ''ui-controller'') \<and> \<not> training_mode
     \<and> \<not> overall_valid (fst (get_physics_score pv speed steering brake ts))
   \<longrightarrow> total_anomaly_score dev training_mode ml_anomaly_score behavioral_features context_score
         (fst (get_physics_score pv speed steering brake ts)) temporal_anomaly_score \<ge> 8 / 10"
proof (intro impI, elim conjE)
  let ?pr = "fst (get_physics_score pv speed steering brake ts)"
  assume a: "\<not> (dev \<noteq> [] \<and> str_contains dev ''ui-controller'')" "\<not> training_mode"
    "\<not> overall_valid ?pr"
  have "\<exists>total. total_anomaly_score dev training_mode ml_anomaly_score behavioral_features
          context_score ?pr temporal_anomaly_score = max total (8 / 10)"
    unfolding total_anomaly_score_def Let_def using a by (simp only: if_False if_True not_False_eq_True) blast
  then obtain total where "total_anomaly_score dev training_mode ml_anomaly_score
      behavioral_features context_score ?pr temporal_anomaly_score = max total (8 / 10)"
    by blast
  then show "8 / 10 \<le> total_anomaly_score dev training_mode ml_anomaly_score
      behavioral_features context_score ?pr temporal_anomaly_score"
    by (simp only: max.cobounded2)
qed

theorem physics_override_after_training_witness:
  "\<not> str_contains ''vehicleA-steering-ecu'' ''ui-controller''
   \<and> \<not> overall_valid (fst (get_physics_score physics_after_speed_frame 70 30 0 2))
   \<and> total_anomaly_score ''vehicleA-steering-ecu'' False 0 None 0
        (fst (get_physics_score physics_after_speed_frame 70 30 0 2)) 0 = 8 / 10"
  using physics_override_after_training [of "''vehicleA-steering-ecu''" False
      physics_after_speed_frame 70 30 0 2 0 None 0 0]
  by (simp add: physics_example total_anomaly_score_def not_ui control_anomaly_score_def Let_def)

section \<open>Signal codec: round trip\<close>

lemma round_half_even_error: "\<bar>real_of_int (round_half_even t) - t\<bar> \<le> 1 / 2"
proof -
  have "real_of_int \<lfloor>t\<rfloor> \<le> t" "t < real_of_int \<lfloor>t\<rfloor> + 1" by linarith+
  then show ?thesis by (auto simp: round_half_even_def Let_def)
qed

lemma round_half_even_nonneg: "0 \<le> t \<Longrightarrow> 0 \<le> round_half_even t"
  by (auto simp: round_half_even_def Let_def)

lemma round_half_even_of_int [simp]: "round_half_even (real_of_int n) = n"
  by (simp add: round_half_even_def)

lemma two_powi_Suc: "(2 :: real) powi (k + 1) = 2 powi k * 2"
  by (simp add: power_int_add)

lemma binade_search_large:
  "1 \<le> y \<Longrightarrow> y < 2 powi (int n + 1) \<Longrightarrow>
     2 powi (binade_search n y e - e) \<le> y \<and> y < 2 powi (binade_search n y e - e + 1)"
proof (induction n arbitrary: y e)
  case 0
  then show ?case by simp
next
  case (Suc n)
  show ?case
  proof (cases "y \<ge> 2")
    case True
    define d where "d = binade_search n (y / 2) (e + 1) - (e + 1)"
    have "y < 2 powi (int n + 1) * 2"
      using Suc.prems(2) two_powi_Suc [of "int n + 1"] by (simp add: add.commute)
    then have "y / 2 < 2 powi (int n + 1)" by simp
    with True Suc.IH [of "y / 2" "e + 1"]
    have "2 powi d \<le> y / 2" "y / 2 < 2 powi (d + 1)"
      unfolding d_def by simp_all
    then have "2 powi d * 2 \<le> y" "y < 2 powi (d + 1) * 2" by simp_all
    then have "2 powi (d + 1) \<le> y" "y < 2 powi (d + 1 + 1)"
      unfolding two_powi_Suc by simp_all
    moreover have "binade_search (Suc n) y e - e = d + 1"
      using True by (simp add: d_def)
    ultimately show ?thesis by simp
  next
    case False
    then show ?thesis using Suc.prems by simp
  qed
qed

lemma binade_search_small:
  "0 < y \<Longrightarrow> y < 1 \<Longrightarrow>
     (2 powi (binade_search n y e - e) \<le> y \<and> y < 2 powi (binade_search n y e - e + 1))
     \<or> (binade_search n y e = e - int n \<and> y < 2 powi (- int n))"
proof (induction n arbitrary: y e)
  case 0
  then show ?case by simp
next
  case (Suc n)
  define b where "b = binade_search n (y * 2) (e - 1)"
  define d where "d = b - e"
  have unfold: "binade_search (Suc n) y e = b"
    using Suc.prems by (simp add: b_def)
  have shift: "b - (e - 1) = d + 1" by (simp add: d_def)
  have halve: "2 powi (d + 1) \<le> y * 2 \<Longrightarrow> y * 2 < 2 powi (d + 1 + 1) \<Longrightarrow>
      2 powi d \<le> y \<and> y < 2 powi (d + 1)"
    unfolding two_powi_Suc by simp
  show ?case
  proof (cases "y * 2 < 1")
    case True
    from Suc.IH [of "y * 2" "e - 1"] Suc.prems True
    consider (a) "2 powi (b - (e - 1)) \<le> y * 2" "y * 2 < 2 powi (b - (e - 1) + 1)"
      | (b) "b = e - 1 - int n" "y * 2 < 2 powi (- int n)"
      unfolding b_def by auto
    then show ?thesis
    proof cases
      case a
      then show ?thesis using halve unfolding shift unfold d_def by simp
    next
      case b
      have "2 powi (- int n) = (2 :: real) powi (- int (Suc n)) * 2"
        using two_powi_Suc [of "- int (Suc n)"] by simp
      then have "y < 2 powi (- int (Suc n))" using b(2) by simp
      then show ?thesis using b(1) unfolding unfold by simp
    qed
  next
    case False
    then have r1: "1 \<le> y * 2" by simp
    have "(1 :: real) \<le> 2 ^ n" by (rule one_le_power) simp
    then have "y < 2 ^ n" using Suc.prems(2) by linarith
    then have r2: "y * 2 < 2 powi (int n + 1)"
      unfolding two_powi_Suc by simp
    from binade_search_large [OF r1 r2, of "e - 1"]
    have "2 powi (b - (e - 1)) \<le> y * 2" "y * 2 < 2 powi (b - (e - 1) + 1)"
      unfolding b_def by simp_all
    then show ?thesis using halve unfolding shift unfold d_def by simp
  qed
qed


lemma two_powi_less_imp_less:
  assumes "(2 :: real) powi a < 2 powi b"
  shows "a < b"
proof (rule ccontr)
  assume "\<not> a < b"
  then have "b \<le> a" by simp
  then have "(2 :: real) powi b \<le> 2 powi a" by (intro power_int_increasing) simp_all
  with assms show False by simp
qed

lemma binade_cases:
  assumes "y \<noteq> 0" and "\<bar>y\<bar> < 2 powi 1101"
  shows "(2 powi binade y \<le> \<bar>y\<bar> \<and> \<bar>y\<bar> < 2 powi (binade y + 1))
         \<or> (binade y = - 1022 \<and> \<bar>y\<bar> < 2 powi (- 1022))"
proof -
  define k where "k = binade_search 1100 \<bar>y\<bar> 0"
  have b: "binade y = max (- 1022) k" by (simp add: binade_def k_def)
  have pos: "0 < \<bar>y\<bar>" using assms(1) by simp
  have "(2 powi k \<le> \<bar>y\<bar> \<and> \<bar>y\<bar> < 2 powi (k + 1)) \<or> (k = - 1100 \<and> \<bar>y\<bar> < 2 powi (- 1100))"
  proof (cases "1 \<le> \<bar>y\<bar>")
    case True
    have "\<bar>y\<bar> < 2 powi (int 1100 + 1)" using assms(2) by simp
    from binade_search_large [OF True this, of 0] show ?thesis by (simp add: k_def)
  next
    case False
    then have "\<bar>y\<bar> < 1" by simp
    from binade_search_small [OF pos this, of 1100 0] show ?thesis by (simp add: k_def)
  qed
  then consider (n) "2 powi k \<le> \<bar>y\<bar>" "\<bar>y\<bar> < 2 powi (k + 1)" "- 1022 \<le> k"
    | (s) "2 powi k \<le> \<bar>y\<bar>" "\<bar>y\<bar> < 2 powi (k + 1)" "k < - 1022"
    | (t) "k = - 1100" "\<bar>y\<bar> < 2 powi (- 1100)"
    by linarith
  then show ?thesis
  proof cases
    case n
    then show ?thesis by (simp add: b max_def)
  next
    case s
    have "(2 :: real) powi (k + 1) \<le> 2 powi (- 1022)"
      using s(3) by (intro power_int_increasing) simp_all
    then show ?thesis using s by (simp add: b max_def)
  next
    case t
    have "(2 :: real) powi (- 1100) \<le> 2 powi (- 1022)"
      by (intro power_int_increasing) simp_all
    then show ?thesis using t by (simp add: b max_def)
  qed
qed

lemma binade_eq:
  assumes "2 powi k \<le> \<bar>y\<bar>" and "\<bar>y\<bar> < 2 powi (k + 1)" and "- 1022 \<le> k" and "k \<le> 1100"
  shows "binade y = k"
proof -
  have p: "(0 :: real) < 2 powi k" by simp
  have nz: "y \<noteq> 0"
  proof
    assume "y = 0"
    then have "2 powi k \<le> (0 :: real)" using assms(1) by simp
    then show False using p by linarith
  qed
  have "(2 :: real) powi (k + 1) \<le> 2 powi 1101"
    using assms(4) by (intro power_int_increasing) simp_all
  then have "\<bar>y\<bar> < 2 powi 1101" using assms(2) by simp
  from binade_cases [OF nz this] show ?thesis
  proof
    assume a: "2 powi binade y \<le> \<bar>y\<bar> \<and> \<bar>y\<bar> < 2 powi (binade y + 1)"
    then have lt: "(2 :: real) powi binade y < 2 powi (k + 1)"
        "(2 :: real) powi k < 2 powi (binade y + 1)"
      using assms(1,2) by simp_all
    have "binade y < k + 1" by (rule two_powi_less_imp_less [OF lt(1)])
    moreover have "k < binade y + 1" by (rule two_powi_less_imp_less [OF lt(2)])
    ultimately show ?thesis by linarith
  next
    assume a: "binade y = - 1022 \<and> \<bar>y\<bar> < 2 powi (- 1022)"
    have "(2 :: real) powi (- 1022) \<le> 2 powi k"
      using assms(3) by (intro power_int_increasing) simp_all
    then show ?thesis using a assms(1) by simp
  qed
qed

lemma double_ulp_pos: "0 < double_ulp y"
  by (simp add: double_ulp_def)

lemma double_round_half_ulp: "\<bar>double_round y - y\<bar> \<le> double_ulp y / 2"
proof (cases "y = 0")
  case True
  then show ?thesis using double_ulp_pos [of y] by (simp add: double_round_def)
next
  case False
  define u where "u = double_ulp y"
  define t where "t = y / u"
  have u: "0 < u" by (simp add: u_def double_ulp_pos)
  have y: "y = t * u" using u by (simp add: t_def)
  have "double_round y - y = (real_of_int (round_half_even t) - t) * u"
    using False u by (simp add: double_round_def u_def [symmetric] t_def algebra_simps)
  then have "\<bar>double_round y - y\<bar> = \<bar>real_of_int (round_half_even t) - t\<bar> * u"
    using u by (simp add: abs_mult)
  also have "\<dots> \<le> (1 / 2) * u"
    using round_half_even_error [of t] u by (intro mult_right_mono) simp_all
  finally show ?thesis by (simp add: u_def)
qed

lemma double_round_nonneg: "0 \<le> y \<Longrightarrow> 0 \<le> double_round y"
  using double_ulp_pos [of y] round_half_even_nonneg [of "y / double_ulp y"]
  by (simp add: double_round_def)

lemma double_round_close:
  assumes "\<bar>y\<bar> \<le> 2 ^ 17"
  shows "\<bar>double_round y - y\<bar> \<le> 1 / 2 ^ 36"
proof (cases "y = 0")
  case True
  then show ?thesis by (simp add: double_round_def)
next
  case False
  have "\<bar>y\<bar> < 2 powi 1101"
  proof -
    have "(2 :: real) ^ 17 < 2 ^ 1101" by (intro power_strict_increasing) simp_all
    then show ?thesis using assms by simp
  qed
  from binade_cases [OF False this]
  have "double_ulp y / 2 \<le> 1 / 2 ^ 36"
  proof
    assume a: "2 powi binade y \<le> \<bar>y\<bar> \<and> \<bar>y\<bar> < 2 powi (binade y + 1)"
    then have "(2 :: real) powi binade y < 2 powi 18" using assms by simp
    then have "binade y < 18" by (rule two_powi_less_imp_less)
    then have "(2 :: real) powi (binade y - 52) \<le> 2 powi (- 35)"
      by (intro power_int_increasing) simp_all
    then show ?thesis by (simp add: double_ulp_def power_int_minus field_simps)
  next
    assume a: "binade y = - 1022 \<and> \<bar>y\<bar> < 2 powi (- 1022)"
    have "(2 :: real) powi (- 1074) \<le> 2 powi (- 35)"
      by (intro power_int_increasing) simp_all
    then show ?thesis using a by (simp add: double_ulp_def power_int_minus field_simps)
  qed
  then show ?thesis using double_round_half_ulp [of y] by linarith
qed

lemma double_round_exact:
  assumes "2 powi k \<le> \<bar>y\<bar>" and "\<bar>y\<bar> < 2 powi (k + 1)" and "- 1022 \<le> k" and "k \<le> 1100"
    and "y / 2 powi (k - 52) = real_of_int m"
  shows "double_round y = y"
proof -
  have p: "(0 :: real) < 2 powi k" by simp
  have nz: "y \<noteq> 0"
  proof
    assume "y = 0"
    then have "2 powi k \<le> (0 :: real)" using assms(1) by simp
    then show False using p by linarith
  qed
  have u: "double_ulp y = 2 powi (k - 52)"
    using binade_eq [OF assms(1-4)] by (simp add: double_ulp_def)
  have y: "real_of_int m * 2 powi (k - 52) = y"
    using assms(5) by (simp add: field_simps)
  have "double_round y = real_of_int (round_half_even (y / 2 powi (k - 52))) * 2 powi (k - 52)"
    using nz by (simp add: double_round_def u)
  also have "\<dots> = real_of_int m * 2 powi (k - 52)"
    unfolding assms(5) by simp
  finally show ?thesis using y by simp
qed


lemma double_round_eval:
  assumes "2 powi k \<le> \<bar>y\<bar>" and "\<bar>y\<bar> < 2 powi (k + 1)" and "- 1022 \<le> k" and "k \<le> 1100"
  shows "double_round y = real_of_int (round_half_even (y / 2 powi (k - 52))) * 2 powi (k - 52)"
proof -
  have p: "(0 :: real) < 2 powi k" by simp
  have nz: "y \<noteq> 0"
  proof
    assume "y = 0"
    then have "2 powi k \<le> (0 :: real)" using assms(1) by simp
    then show False using p by linarith
  qed
  have u: "double_ulp y = 2 powi (k - 52)"
    using binade_eq [OF assms] by (simp add: double_ulp_def)
  show ?thesis using nz by (simp add: double_round_def u)
qed

lemma double_round_near:
  assumes "\<bar>y\<bar> \<le> 131072"
  shows "\<bar>double_round y - y\<bar> \<le> 1 / 10000000000"
proof -
  have "\<bar>y\<bar> \<le> 2 ^ 17" using assms by simp
  then have "\<bar>double_round y - y\<bar> \<le> 1 / 2 ^ 36" by (rule double_round_close)
  also have "(1 :: real) / 2 ^ 36 \<le> 1 / 10000000000" by simp
  finally show ?thesis .
qed

lemma float_result_bounded:
  assumes "\<bar>y\<bar> \<le> 131072"
  shows "float_result y = Some (double_round y)"
proof -
  have "\<bar>double_round y\<bar> < 262144"
    using double_round_near [OF assms] assms by linarith
  also have "(262144 :: real) = 2 ^ 18" by simp
  also have "(2 :: real) ^ 18 \<le> 2 ^ 1024" by (intro power_increasing) simp_all
  finally show ?thesis by (simp add: float_result_def)
qed

lemma py_int_nonneg: "0 \<le> x \<Longrightarrow> py_int x = \<lfloor>x\<rfloor>"
  by (simp add: py_int_def)

lemma from_bytes_big_to_bytes2:
  assumes "0 \<le> val" "val \<le> 65535"
  shows "\<exists>bs. payload_of val = Inr bs \<and> length bs = 8 \<and> from_bytes_big (take 2 bs) = val"
proof -
  have hi: "0 \<le> val div 256" "val div 256 < 256" using assms by auto
  have lo: "0 \<le> val mod 256" "val mod 256 < 256" by auto
  have u1: "uint (word_of_int (val div 256) :: 8 word) = val div 256"
    using hi by (simp add: uint_word_of_int take_bit_eq_mod)
  have u2: "uint (word_of_int (val mod 256) :: 8 word) = val mod 256"
    using lo by (simp add: uint_word_of_int take_bit_eq_mod)
  show ?thesis
    using assms u1 u2 by (simp add: payload_of_def to_bytes2_def from_bytes_big_def)
qed

text \<open>The scaled value \<open>w\<close> (at most 65535) is rounded, truncated and sent; the integer received
  is within one of \<open>w\<close>, up to the rounding of the product.\<close>

lemma truncated_payload:
  assumes "0 \<le> w" "w \<le> 65535"
  shows "\<exists>bs k. float_result w = Some (double_round w) \<and> payload_of (py_int (double_round w)) = Inr bs
           \<and> from_bytes_big (take 2 bs) = k \<and> 0 \<le> k \<and> k \<le> 65535
           \<and> real_of_int k \<le> w + 1 / 10000000000 \<and> w - 1 / 10000000000 < real_of_int k + 1"
proof -
  define b where "b = double_round w"
  have w17: "\<bar>w\<bar> \<le> 131072" using assms by linarith
  have close: "\<bar>b - w\<bar> \<le> 1 / 10000000000" unfolding b_def by (rule double_round_near [OF w17])
  have b0: "0 \<le> b" unfolding b_def by (rule double_round_nonneg [OF assms(1)])
  have p: "py_int b = \<lfloor>b\<rfloor>" using b0 by (rule py_int_nonneg)
  have "b < 65536" using close assms(2) by linarith
  then have hi: "\<lfloor>b\<rfloor> \<le> 65535" by (simp add: floor_le_iff)
  have lo: "0 \<le> \<lfloor>b\<rfloor>" using b0 by simp
  obtain bs where bs: "payload_of \<lfloor>b\<rfloor> = Inr bs" "from_bytes_big (take 2 bs) = \<lfloor>b\<rfloor>"
    using from_bytes_big_to_bytes2 [OF lo hi] by blast
  define z where "z = real_of_int \<lfloor>b\<rfloor>"
  have f: "z \<le> b" "b < z + 1" unfolding z_def by linarith+
  have "z \<le> w + 1 / 10000000000" "w - 1 / 10000000000 < z + 1"
    using f close by linarith+
  then show ?thesis
    using bs p lo hi float_result_bounded [OF w17] unfolding z_def b_def by auto
qed

lemma decoded_tenth:
  assumes "0 \<le> k" "k \<le> 65535"
  shows "\<bar>double_round (real_of_int k / 10) - real_of_int k / 10\<bar> \<le> 1 / 10000000000"
    and "0 \<le> double_round (real_of_int k / 10)"
    and "double_round (real_of_int k / 10) \<le> 65536"
proof -
  have k: "0 \<le> real_of_int k" "real_of_int k \<le> 65535" using assms by simp_all
  then have r: "\<bar>real_of_int k / 10\<bar> \<le> 131072" by linarith
  show c: "\<bar>double_round (real_of_int k / 10) - real_of_int k / 10\<bar> \<le> 1 / 10000000000"
    by (rule double_round_near [OF r])
  show "0 \<le> double_round (real_of_int k / 10)"
    using assms by (intro double_round_nonneg) simp
  show "double_round (real_of_int k / 10) \<le> 65536"
    using c k by linarith
qed

lemma six_zero_bytes: "replicate 6 (0 :: 8 word) = [0, 0, 0, 0, 0, 0]"
  by (simp add: eval_nat_numeral)

lemma double_examples:
  "double_round (3 / 32) = 3 / 32"
  "double_round (1443 / 32) = 1443 / 32"
  "double_round (7215 / 16) = 7215 / 16"
  "double_round 45 = 45"
proof -
  show "double_round (3 / 32) = 3 / 32"
    by (rule double_round_exact [where k = "- 4" and m = "3 * 2 ^ 51"]) simp_all
  show "double_round (1443 / 32) = 1443 / 32"
    by (rule double_round_exact [where k = 5 and m = "1443 * 2 ^ 42"]) simp_all
  show "double_round (7215 / 16) = 7215 / 16"
    by (rule double_round_exact [where k = 8 and m = "7215 * 2 ^ 40"]) simp_all
  show "double_round 45 = 45"
    by (rule double_round_exact [where k = 5 and m = "45 * 2 ^ 47"]) simp_all
qed

lemma encode_steering_example:
  "encode_steering (3 / 32) = Inr [0x01, 0xC2, 0, 0, 0, 0, 0, 0]"
proof -
  have a: "float_result (3 / 32 + 45) = Some (1443 / 32)"
    using float_result_bounded [of "1443 / 32"] by (simp add: double_examples)
  have b: "float_result (1443 / 32 * 10) = Some (7215 / 16)"
    using float_result_bounded [of "7215 / 16"] by (simp add: double_examples)
  have c: "py_int (7215 / 16) = 450" by (simp add: py_int_def)
  show ?thesis
    unfolding encode_steering_def a option.case b c
    by (simp add: payload_of_def to_bytes2_def six_zero_bytes)
qed

lemma decode_steering_example:
  "decode_signal 0x120 [0x01, 0xC2, 0, 0, 0, 0, 0, 0] = Some (''steering'', 0)"
proof -
  have "from_bytes_big (take 2 [0x01, 0xC2, 0, 0, 0, 0, 0, 0 :: 8 word]) = 450"
    by (simp add: from_bytes_big_def)
  then show ?thesis
    by (simp add: decode_signal_def double_examples) (simp add: double_round_def)
qed

text \<open>
  The claim C7 with its tolerance of 0.05 fails, because the encoders truncate with
  \<^verbatim>\<open>int(...)\<close> where the specification rounds.  The steering angle 0.09375 is a double, and
  every float operation on its way is exact: it is encoded as 450 (bytes \<open>01 c2\<close>) and decoded
  as 0 degrees, 0.09375 away from the input.
\<close>

theorem steering_round_trip_off_by_more_than_tolerance:
  "double_round (3 / 32) = 3 / 32
   \<and> - 45 \<le> (3 / 32 :: real) \<and> (3 / 32 :: real) \<le> 45
   \<and> encode_steering (3 / 32) = Inr [0x01, 0xC2, 0, 0, 0, 0, 0, 0]
   \<and> decode_signal 0x120 [0x01, 0xC2, 0, 0, 0, 0, 0, 0] = Some (''steering'', 0)
   \<and> \<not> \<bar>0 - 3 / 32\<bar> \<le> (5 / 100 :: real)"
  by (simp add: encode_steering_example decode_steering_example double_examples)

text \<open>
  A tolerance of exactly 0.1 does not hold either.  The double nearest to -44.6 is encoded as 3
  and decoded as the double nearest to -44.7, which is more than 0.1 below the input.
\<close>

lemma steering_round_trip_exceeds_tenth:
  "double_round (- (6276891980647629 / 140737488355328)) = - (6276891980647629 / 140737488355328)
   \<and> encode_steering (- (6276891980647629 / 140737488355328)) = Inr [0, 3, 0, 0, 0, 0, 0, 0]
   \<and> decode_signal 0x120 [0, 3, 0, 0, 0, 0, 0, 0]
       = Some (''steering'', - (3145482864741581 / 70368744177664))
   \<and> - (6276891980647629 / 140737488355328) - (- (3145482864741581 / 70368744177664))
       > (1 / 10 :: real)"
proof -
  let ?x = "- (6276891980647629 / 140737488355328) :: real"
  have x: "double_round ?x = ?x"
    by (rule double_round_exact [where k = 5 and m = "- 6276891980647629"]) simp_all
  have s: "double_round (56294995342131 / 140737488355328) = 56294995342131 / 140737488355328"
    by (rule double_round_exact [where k = "- 2" and m = "56294995342131 * 2 ^ 7"]) simp_all
  have p: "double_round (281474976710655 / 70368744177664) = 281474976710655 / 70368744177664"
    by (rule double_round_exact [where k = 1 and m = "281474976710655 * 2 ^ 5"]) simp_all
  have a: "float_result (?x + 45) = Some (56294995342131 / 140737488355328)"
    using float_result_bounded [of "56294995342131 / 140737488355328"] by (simp add: s)
  have b: "float_result (56294995342131 / 140737488355328 * 10)
      = Some (281474976710655 / 70368744177664)"
    using float_result_bounded [of "281474976710655 / 70368744177664"] by (simp add: p)
  have c: "py_int (281474976710655 / 70368744177664) = 3" by (simp add: py_int_def)
  have enc: "encode_steering ?x = Inr [0, 3, 0, 0, 0, 0, 0, 0]"
    unfolding encode_steering_def a option.case b c
    by (simp add: payload_of_def to_bytes2_def six_zero_bytes)
  have t: "double_round (3 / 10) = 5404319552844595 / 18014398509481984"
    by (subst double_round_eval [where k = "- 2"]) (simp_all add: round_half_even_def)
  have v: "double_round (- (805243613373844685 / 18014398509481984))
      = - (3145482864741581 / 70368744177664)"
    by (subst double_round_eval [where k = 5]) (simp_all add: round_half_even_def)
  have "from_bytes_big (take 2 [0, 3, 0, 0, 0, 0, 0, 0 :: 8 word]) = 3"
    by (simp add: from_bytes_big_def)
  then have dec: "decode_signal 0x120 [0, 3, 0, 0, 0, 0, 0, 0]
       = Some (''steering'', - (3145482864741581 / 70368744177664))"
    by (simp add: decode_signal_def t v)
  show ?thesis using x enc dec by simp
qed

text \<open>
  C7, amended.  For every signal value \<open>x\<close> in the valid range of its frame kind (steering in
  \<open>[-45, 45]\<close>, speed in \<open>[0, 6553.5]\<close>, brake in \<open>[0, 100]\<close>), encoding succeeds and decoding
  the eight-byte payload yields a value within 0.1 + 0.000000001 of \<open>x\<close>.
\<close>

theorem codec_round_trip_within_tenth:
  "(- 45 \<le> x \<and> x \<le> 45 \<longrightarrow>
      (\<exists>data v. encode_steering x = Inr data \<and> decode_signal 0x120 data = Some (''steering'', v)
          \<and> \<bar>v - x\<bar> < 1 / 10 + 1 / 1000000000))
   \<and> (0 \<le> x \<and> x \<le> 65535 / 10 \<longrightarrow>
      (\<exists>data v. encode_speed x = Inr data \<and> decode_signal 0x130 data = Some (''speed'', v)
          \<and> \<bar>v - x\<bar> < 1 / 10 + 1 / 1000000000))
   \<and> (0 \<le> x \<and> x \<le> 100 \<longrightarrow>
      (\<exists>data v. encode_brake x = Inr data \<and> decode_signal 0x140 data = Some (''brake'', v)
          \<and> \<bar>v - x\<bar> < 1 / 10 + 1 / 1000000000))"
proof (intro conjI impI)
  assume r: "- 45 \<le> x \<and> x \<le> 45"
  define a where "a = double_round (x + 45)"
  have s17: "\<bar>x + 45\<bar> \<le> 131072" using r by linarith
  have fa: "float_result (x + 45) = Some a"
    unfolding a_def by (rule float_result_bounded [OF s17])
  have ca: "\<bar>a - (x + 45)\<bar> \<le> 1 / 10000000000"
    unfolding a_def by (rule double_round_near [OF s17])
  have a0: "0 \<le> a" unfolding a_def using r by (intro double_round_nonneg) simp
  have w: "0 \<le> a * 10" "a * 10 \<le> 65535" using a0 ca r by linarith+
  from truncated_payload [OF w] obtain bs k where
    b: "float_result (a * 10) = Some (double_round (a * 10))"
       "payload_of (py_int (double_round (a * 10))) = Inr bs"
       "from_bytes_big (take 2 bs) = k" "0 \<le> k" "k \<le> 65535"
       "real_of_int k \<le> a * 10 + 1 / 10000000000" "a * 10 - 1 / 10000000000 < real_of_int k + 1"
    by blast
  define c where "c = double_round (real_of_int k / 10)"
  define v where "v = double_round (c - 45)"
  have cc: "\<bar>c - real_of_int k / 10\<bar> \<le> 1 / 10000000000" "0 \<le> c" "c \<le> 65536"
    unfolding c_def using decoded_tenth [OF b(4,5)] by simp_all
  have "\<bar>c - 45\<bar> \<le> 131072" using cc by linarith
  then have cv: "\<bar>v - (c - 45)\<bar> \<le> 1 / 10000000000"
    unfolding v_def by (rule double_round_near)
  have "encode_steering x = Inr bs"
    using fa b(1,2) by (simp add: encode_steering_def)
  moreover have "decode_signal 0x120 bs = Some (''steering'', v)"
    using b(3) by (simp add: decode_signal_def v_def c_def)
  moreover have "\<bar>v - x\<bar> < 1 / 10 + 1 / 1000000000"
    using ca b(6,7) cc(1) cv by linarith
  ultimately show "\<exists>data v. encode_steering x = Inr data
      \<and> decode_signal 0x120 data = Some (''steering'', v) \<and> \<bar>v - x\<bar> < 1 / 10 + 1 / 1000000000"
    by blast
next
  assume r: "0 \<le> x \<and> x \<le> 65535 / 10"
  have w: "0 \<le> x * 10" "x * 10 \<le> 65535" using r by linarith+
  from truncated_payload [OF w] obtain bs k where
    b: "float_result (x * 10) = Some (double_round (x * 10))"
       "payload_of (py_int (double_round (x * 10))) = Inr bs"
       "from_bytes_big (take 2 bs) = k" "0 \<le> k" "k \<le> 65535"
       "real_of_int k \<le> x * 10 + 1 / 10000000000" "x * 10 - 1 / 10000000000 < real_of_int k + 1"
    by blast
  define v where "v = double_round (real_of_int k / 10)"
  have cv: "\<bar>v - real_of_int k / 10\<bar> \<le> 1 / 10000000000"
    unfolding v_def using decoded_tenth [OF b(4,5)] by simp
  have "encode_speed x = Inr bs"
    using b(1,2) by (simp add: encode_speed_def)
  moreover have "decode_signal 0x130 bs = Some (''speed'', v)"
    using b(3) by (simp add: decode_signal_def v_def)
  moreover have "\<bar>v - x\<bar> < 1 / 10 + 1 / 1000000000"
    using b(6,7) cv by linarith
  ultimately show "\<exists>data v. encode_speed x = Inr data
      \<and> decode_signal 0x130 data = Some (''speed'', v) \<and> \<bar>v - x\<bar> < 1 / 10 + 1 / 1000000000"
    by blast
next
  assume r: "0 \<le> x \<and> x \<le> 100"
  have w: "0 \<le> x * 10" "x * 10 \<le> 65535" using r by linarith+
  from truncated_payload [OF w] obtain bs k where
    b: "float_result (x * 10) = Some (double_round (x * 10))"
       "payload_of (py_int (double_round (x * 10))) = Inr bs"
       "from_bytes_big (take 2 bs) = k" "0 \<le> k" "k \<le> 65535"
       "real_of_int k \<le> x * 10 + 1 / 10000000000" "x * 10 - 1 / 10000000000 < real_of_int k + 1"
    by blast
  define v where "v = double_round (real_of_int k / 10)"
  have cv: "\<bar>v - real_of_int k / 10\<bar> \<le> 1 / 10000000000"
    unfolding v_def using decoded_tenth [OF b(4,5)] by simp
  have "encode_brake x = Inr bs"
    using b(1,2) by (simp add: encode_brake_def)
  moreover have "decode_signal 0x140 bs = Some (''brake'', v)"
    using b(3) by (simp add: decode_signal_def v_def)
  moreover have "\<bar>v - x\<bar> < 1 / 10 + 1 / 1000000000"
    using b(6,7) cv by linarith
  ultimately show "\<exists>data v. encode_brake x = Inr data
      \<and> decode_signal 0x140 data = Some (''brake'', v) \<and> \<bar>v - x\<bar> < 1 / 10 + 1 / 1000000000"
    by blast
qed

theorem codec_round_trip_within_tenth_witness:
  "- 45 \<le> (3 / 32 :: real) \<and> (3 / 32 :: real) \<le> 45
   \<and> (\<exists>data v. encode_steering (3 / 32) = Inr data
         \<and> decode_signal 0x120 data = Some (''steering'', v) \<and> \<bar>v - 3 / 32\<bar> < 1 / 10 + 1 / 1000000000)
   \<and> (\<exists>data v. encode_speed (3 / 32) = Inr data
         \<and> decode_signal 0x130 data = Some (''speed'', v) \<and> \<bar>v - 3 / 32\<bar> < 1 / 10 + 1 / 1000000000)
   \<and> (\<exists>data v. encode_brake (3 / 32) = Inr data
         \<and> decode_signal 0x140 data = Some (''brake'', v) \<and> \<bar>v - 3 / 32\<bar> < 1 / 10 + 1 / 1000000000)"
  using codec_round_trip_within_tenth [of "3 / 32"] by simp

end
